theory Spec2Isabelle
  imports Main "HOL-Library.Sublist" "HOL-Library.AList"
begin

section \<open>Strings of the server\<close>

text \<open>
  A string is the list of the bytes of its UTF-8 encoding; the strings of a request and
  of the database are well formed, and on well-formed strings equality, containment and
  splitting at a space are the same on the bytes as on the code units of the JavaScript
  string. A string is ASCII when every byte is below 128.
\<close>

definition isAscii :: "string \<Rightarrow> bool" where
  "isAscii s = list_all (\<lambda>c. (of_char c :: nat) < 128) s"

definition toLowerChar :: "char \<Rightarrow> char" where
  "toLowerChar c =
     (let n = (of_char c :: nat) in if 65 \<le> n \<and> n \<le> 90 then char_of (n + 32) else c)"

definition toUpperChar :: "char \<Rightarrow> char" where
  "toUpperChar c =
     (let n = (of_char c :: nat) in if 97 \<le> n \<and> n \<le> 122 then char_of (n - 32) else c)"

text \<open>
  \<open>toLowerCase\<close> and \<open>toUpperCase\<close> follow the Unicode case mappings of the JavaScript
  runtime. On an ASCII string these map the letters \<open>A\<close>..\<open>Z\<close> and \<open>a\<close>..\<open>z\<close> and nothing
  else. On any other string the result is what the runtime gives (it may change the
  length, as \<open>SS\<close> for the sharp s, and may depend on the context of a letter); the
  tables are not written out, and the runtime is a parameter of everything that maps
  case.
\<close>

record runtime =
  lowerUnicode :: "string \<Rightarrow> string"
  upperUnicode :: "string \<Rightarrow> string"

definition toLowerCase :: "runtime \<Rightarrow> string \<Rightarrow> string" where
  "toLowerCase js s = (if isAscii s then map toLowerChar s else lowerUnicode js s)"

definition toUpperCase :: "runtime \<Rightarrow> string \<Rightarrow> string" where
  "toUpperCase js s = (if isAscii s then map toUpperChar s else upperUnicode js s)"

text \<open>\<open>s.includes(t)\<close>: \<open>t\<close> occurs in \<open>s\<close> as a contiguous run.\<close>

fun includes_str :: "string \<Rightarrow> string \<Rightarrow> bool" where
  "includes_str [] t = (t = [])"
| "includes_str (c # s) t = (prefix t (c # s) \<or> includes_str s t)"

text \<open>\<open>s.split(sep)\<close> for a one-character separator: never the empty list.\<close>

fun split :: "char \<Rightarrow> string \<Rightarrow> string list" where
  "split sep [] = [[]]"
| "split sep (c # s) =
     (if c = sep then [] # split sep s
      else (case split sep s of [] \<Rightarrow> [[c]] | w # ws \<Rightarrow> (c # w) # ws))"

text \<open>\<open>xs.join(sep)\<close>.\<close>

fun join :: "string \<Rightarrow> string list \<Rightarrow> string" where
  "join sep [] = []"
| "join sep [x] = x"
| "join sep (x # y # ys) = x @ sep @ join sep (y # ys)"

text \<open>Truthiness of a value that is \<open>null\<close> or a string: only a non-empty string is truthy.\<close>

fun truthy :: "string option \<Rightarrow> bool" where
  "truthy None = False"
| "truthy (Some s) = (s \<noteq> [])"

section \<open>The litigation database\<close>

text \<open>
  The document \<open>data/litigation-database.json\<close>: the fields the handlers read. Every
  field the handlers dereference is present in an entry; \<open>subAgency\<close> is optional.
\<close>

record agencyRef =
  agency :: string
  subAgency :: "string option"

record claims =
  summary :: string

record impact =
  affectedCommunities :: "string list"
  narrativeAssessment :: string

record entry =
  idE :: string
  caseName :: string
  filingDate :: string
  currentStatus :: string
  claimsAndLegalBasis :: claims
  agenciesInvolved :: "agencyRef list"
  culturalImpactAnalysis :: impact
  classification :: string

record metadata =
  lastUpdated :: string

record database =
  metadata :: metadata
  litigationEntries :: "entry list"

text \<open>
  \<open>loadDatabase\<close> reads the file and parses it inside \<open>try\<close>; either call may throw.
  The file system and the JSON parser are the environment of a request: what
  \<open>fs.readFileSync\<close> gives for the database path, and what \<open>JSON.parse\<close> gives for a text.
  A parsed value is the database document or a falsy value (\<open>null\<close>, \<open>false\<close>, \<open>0\<close>,
  \<open>""\<close>); \<open>loadDatabase\<close> returns \<open>null\<close>, falsy too, when a call throws.
\<close>

datatype 'a outcome = Throws | Returns 'a

datatype parsed = JsFalsy | Document database

record env =
  readFileSync :: "string outcome"
  JSON_parse :: "string \<Rightarrow> parsed outcome"

definition loadDatabase :: "env \<Rightarrow> parsed" where
  "loadDatabase fs =
     (case readFileSync fs of
        Throws \<Rightarrow> JsFalsy
      | Returns data \<Rightarrow>
          (case JSON_parse fs data of Throws \<Rightarrow> JsFalsy | Returns v \<Rightarrow> v))"

section \<open>Responses\<close>

text \<open>
  A count table is a JavaScript object used as a dictionary, kept as an association list
  in insertion order (the order of the keys plays no part in the properties below). A
  value is a number or, when \<open>+ 1\<close> was applied to a non-number, a string whose text is
  not modelled.
\<close>

datatype jsval = Num nat | Str

type_synonym counts = "(string \<times> jsval) list"

datatype body =
    ErrorBody string
  | LitigationBody nat "entry list" metadata
  | SearchBody string nat "entry list"
  | StatsBody nat counts counts counts counts string

datatype response = Response nat body

text \<open>\<open>url.searchParams.get(name)\<close>: the value of the parameter, or \<open>null\<close>.\<close>

type_synonym searchParams = "string \<Rightarrow> string option"

definition databaseNotAvailable :: response where
  "databaseNotAvailable = Response 500 (ErrorBody ''Database not available'')"

section \<open>GET /api/litigation\<close>

definition matchClassification :: "runtime \<Rightarrow> string \<Rightarrow> entry \<Rightarrow> bool" where
  "matchClassification js c e = (classification e = toUpperCase js c)"

text \<open>
  \<open>a.subAgency && a.subAgency.toUpperCase().includes(...)\<close>: an absent or empty
  \<open>subAgency\<close> is falsy and the right operand is not evaluated.
\<close>

definition matchAgencyRef :: "runtime \<Rightarrow> string \<Rightarrow> agencyRef \<Rightarrow> bool" where
  "matchAgencyRef js ag a =
     (toUpperCase js (agency a) = toUpperCase js ag \<or>
      (case subAgency a of
         None \<Rightarrow> False
       | Some sub \<Rightarrow>
           sub \<noteq> [] \<and> includes_str (toUpperCase js sub) (toUpperCase js ag)))"

definition matchAgency :: "runtime \<Rightarrow> string \<Rightarrow> entry \<Rightarrow> bool" where
  "matchAgency js ag e = list_ex (matchAgencyRef js ag) (agenciesInvolved e)"

definition matchCommunity :: "runtime \<Rightarrow> string \<Rightarrow> entry \<Rightarrow> bool" where
  "matchCommunity js community e =
     list_ex (\<lambda>c. includes_str (toLowerCase js c) (toLowerCase js community))
       (affectedCommunities (culturalImpactAnalysis e))"

definition matchStatus :: "runtime \<Rightarrow> string \<Rightarrow> entry \<Rightarrow> bool" where
  "matchStatus js status e =
     includes_str (toLowerCase js (currentStatus e)) (toLowerCase js status)"

definition matchId :: "string \<Rightarrow> entry \<Rightarrow> bool" where
  "matchId i e = (idE e = i)"

text \<open>\<open>if (p) { entries = entries.filter(...) }\<close> for a parameter \<open>p\<close>.\<close>

fun filterIf :: "string option \<Rightarrow> (string \<Rightarrow> entry \<Rightarrow> bool) \<Rightarrow> entry list \<Rightarrow> entry list" where
  "filterIf None m entries = entries"
| "filterIf (Some p) m entries = (if p \<noteq> [] then filter (m p) entries else entries)"

definition filterEntries :: "runtime \<Rightarrow> searchParams \<Rightarrow> entry list \<Rightarrow> entry list" where
  "filterEntries js params entries0 =
     (let entries = filterIf (params ''classification'') (matchClassification js) entries0;
          entries = filterIf (params ''agency'') (matchAgency js) entries;
          entries = filterIf (params ''community'') (matchCommunity js) entries;
          entries = filterIf (params ''status'') (matchStatus js) entries;
          entries = filterIf (params ''id'') matchId entries
      in entries)"

definition handleLitigationAPI :: "runtime \<Rightarrow> env \<Rightarrow> searchParams \<Rightarrow> response" where
  "handleLitigationAPI js fs params =
     (case loadDatabase fs of
        JsFalsy \<Rightarrow> databaseNotAvailable
      | Document db \<Rightarrow>
          (let entries = filterEntries js params (litigationEntries db)
           in Response 200 (LitigationBody (length entries) entries (metadata db))))"

section \<open>GET /api/litigation/search\<close>

text \<open>The array that is joined into the searchable text of an entry.\<close>

definition searchFields :: "entry \<Rightarrow> string list" where
  "searchFields e =
     [caseName e,
      summary (claimsAndLegalBasis e),
      narrativeAssessment (culturalImpactAnalysis e)]
     @ map agency (agenciesInvolved e)
     @ affectedCommunities (culturalImpactAnalysis e)"

definition searchableText :: "runtime \<Rightarrow> entry \<Rightarrow> string" where
  "searchableText js e = toLowerCase js (join '' '' (searchFields e))"

definition searchEntries :: "runtime \<Rightarrow> string \<Rightarrow> entry list \<Rightarrow> entry list" where
  "searchEntries js query entries =
     (let searchTerms = split CHR '' '' (toLowerCase js query)
      in filter (\<lambda>e. list_all (\<lambda>term. includes_str (searchableText js e) term) searchTerms)
           entries)"

definition handleSearchAPI :: "runtime \<Rightarrow> env \<Rightarrow> searchParams \<Rightarrow> response" where
  "handleSearchAPI js fs params =
     (case loadDatabase fs of
        JsFalsy \<Rightarrow> databaseNotAvailable
      | Document db \<Rightarrow>
          (case params ''q'' of
             None \<Rightarrow> Response 400 (ErrorBody ''Search query required'')
           | Some query \<Rightarrow>
               if query = [] then Response 400 (ErrorBody ''Search query required'')
               else (let results = searchEntries js query (litigationEntries db)
                     in Response 200 (SearchBody query (length results) results))))"

section \<open>GET /api/litigation/stats\<close>

text \<open>
  \<open>acc[k] = (acc[k] || 0) + 1\<close> on an object created by \<open>{}\<close>. The read \<open>acc[k]\<close>
  finds an own property or, failing that, a property inherited from \<open>Object.prototype\<close>;
  an inherited value is a function or an object, so \<open>+ 1\<close> gives a string. The write
  creates or replaces an own property, except for \<open>__proto__\<close>, whose setter ignores a
  value that is not an object.
\<close>

definition objectPrototypeKeys :: "string list" where
  "objectPrototypeKeys =
     [''constructor'', ''__defineGetter__'', ''__defineSetter__'', ''hasOwnProperty'',
      ''__lookupGetter__'', ''__lookupSetter__'', ''isPrototypeOf'',
      ''propertyIsEnumerable'', ''toString'', ''valueOf'', ''__proto__'',
      ''toLocaleString'']"

definition increment :: "counts \<Rightarrow> string \<Rightarrow> counts" where
  "increment acc k =
     (case map_of acc k of
        Some (Num n) \<Rightarrow> AList.update k (Num (n + 1)) acc
      | Some Str \<Rightarrow> AList.update k Str acc
      | None \<Rightarrow>
          if k = ''__proto__'' then acc
          else if k \<in> set objectPrototypeKeys then AList.update k Str acc
          else AList.update k (Num 1) acc)"

definition statusCategory :: "runtime \<Rightarrow> string \<Rightarrow> string" where
  "statusCategory js st =
     (let status = toLowerCase js st
      in if includes_str status ''injunction granted''
            \<or> includes_str status ''judgment for plaintiffs'' then ''Protective Outcomes''
         else if includes_str status ''active'' \<or> includes_str status ''pending''
           then ''Active Litigation''
         else if includes_str status ''dismissed'' \<or> includes_str status ''withdrew''
           then ''Dismissed/Withdrawn''
         else if includes_str status ''review'' \<or> includes_str status ''watch''
           then ''Under Review''
         else ''Other'')"

definition byClassification :: "entry list \<Rightarrow> counts" where
  "byClassification entries = fold (\<lambda>e acc. increment acc (classification e)) entries []"

definition byAgency :: "entry list \<Rightarrow> counts" where
  "byAgency entries =
     fold (\<lambda>e acc. fold (\<lambda>a acc. increment acc (agency a)) (agenciesInvolved e) acc)
       entries []"

definition byCommunity :: "entry list \<Rightarrow> counts" where
  "byCommunity entries =
     fold (\<lambda>e acc. fold (\<lambda>c acc. increment acc c)
                     (affectedCommunities (culturalImpactAnalysis e)) acc)
       entries []"

definition byStatus :: "runtime \<Rightarrow> entry list \<Rightarrow> counts" where
  "byStatus js entries =
     fold (\<lambda>e acc. increment acc (statusCategory js (currentStatus e))) entries []"

definition handleStatsAPI :: "runtime \<Rightarrow> env \<Rightarrow> response" where
  "handleStatsAPI js fs =
     (case loadDatabase fs of
        JsFalsy \<Rightarrow> databaseNotAvailable
      | Document db \<Rightarrow>
          (let entries = litigationEntries db
           in Response 200
                (StatsBody (length entries) (byClassification entries) (byAgency entries)
                   (byCommunity entries) (byStatus js entries) (lastUpdated (metadata db)))))"

section \<open>Notions of the specification\<close>

text \<open>
  Case-insensitive containment as the specification words it for free text: compare
  after folding both sides to lower case; containment is occurrence as a contiguous run.
\<close>

definition containsCI :: "runtime \<Rightarrow> string \<Rightarrow> string \<Rightarrow> bool" where
  "containsCI js text t = sublist (toLowerCase js t) (toLowerCase js text)"

text \<open>
  Case-insensitive comparison of codes, which are written in upper case: two codes are
  equal when their upper-case forms are, and a code contains a criterion when its
  upper-case form contains that of the criterion.
\<close>

definition sameUpperCase :: "runtime \<Rightarrow> string \<Rightarrow> string \<Rightarrow> bool" where
  "sameUpperCase js s t = (toUpperCase js s = toUpperCase js t)"

definition containsUpperCase :: "runtime \<Rightarrow> string \<Rightarrow> string \<Rightarrow> bool" where
  "containsUpperCase js code t = sublist (toUpperCase js t) (toUpperCase js code)"

text \<open>Upper-casing a string that is not empty never gives the empty string.\<close>

definition upperKeepsNonEmpty :: "runtime \<Rightarrow> bool" where
  "upperKeepsNonEmpty js = (\<forall>s. s \<noteq> [] \<longrightarrow> toUpperCase js s \<noteq> [])"

text \<open>
  The status buckets of the specification, in the order they are checked, each with its
  keywords; the first bucket with a keyword contained in the status wins.
\<close>

definition statusBuckets :: "(string list \<times> string) list" where
  "statusBuckets =
     [([''injunction granted'', ''judgment for plaintiffs''], ''Protective Outcomes''),
      ([''active'', ''pending''], ''Active Litigation''),
      ([''dismissed'', ''withdrew''], ''Dismissed/Withdrawn''),
      ([''review'', ''watch''], ''Under Review'')]"

definition bucketOf :: "runtime \<Rightarrow> string \<Rightarrow> string" where
  "bucketOf js st =
     (case find (\<lambda>(keywords, bucket). list_ex (containsCI js st) keywords) statusBuckets of
        None \<Rightarrow> ''Other''
      | Some (keywords, bucket) \<Rightarrow> bucket)"

text \<open>
  Reading a count table: the count under a key (0 when the key is absent), and the sum
  of all values, which is a number only when every value is.
\<close>

fun numeric :: "jsval \<Rightarrow> nat" where
  "numeric (Num n) = n"
| "numeric Str = 0"

definition sumValues :: "counts \<Rightarrow> jsval" where
  "sumValues acc =
     (if list_ex (\<lambda>(k, v). v = Str) acc then Str
      else Num (sum_list (map (\<lambda>(k, v). numeric v) acc)))"

definition countOf :: "counts \<Rightarrow> string \<Rightarrow> nat" where
  "countOf acc k = (case map_of acc k of None \<Rightarrow> 0 | Some v \<Rightarrow> numeric v)"

definition numbersOnly :: "counts \<Rightarrow> bool" where
  "numbersOnly acc = (Str \<notin> snd ` set acc)"

definition total :: "counts \<Rightarrow> nat" where
  "total acc = sum_list (map (\<lambda>(k, v). numeric v) acc)"

text \<open>
  The criteria of the filter as the specification words them. A criterion is provided
  when its parameter is present and not empty. The classification of a record is held
  in upper case, and the criterion is compared in upper case.
\<close>

definition satisfiesClassification :: "runtime \<Rightarrow> string \<Rightarrow> entry \<Rightarrow> bool" where
  "satisfiesClassification js c e = (classification e = toUpperCase js c)"

definition satisfiesAgencyRef :: "runtime \<Rightarrow> string \<Rightarrow> agencyRef \<Rightarrow> bool" where
  "satisfiesAgencyRef js ag a =
     (sameUpperCase js (agency a) ag \<or>
      (case subAgency a of None \<Rightarrow> False | Some sub \<Rightarrow> containsUpperCase js sub ag))"

definition satisfiesAgency :: "runtime \<Rightarrow> string \<Rightarrow> entry \<Rightarrow> bool" where
  "satisfiesAgency js ag e = (\<exists>a\<in>set (agenciesInvolved e). satisfiesAgencyRef js ag a)"

definition satisfiesCommunity :: "runtime \<Rightarrow> string \<Rightarrow> entry \<Rightarrow> bool" where
  "satisfiesCommunity js community e =
     (\<exists>label\<in>set (affectedCommunities (culturalImpactAnalysis e)).
        containsCI js label community)"

definition satisfiesStatus :: "runtime \<Rightarrow> string \<Rightarrow> entry \<Rightarrow> bool" where
  "satisfiesStatus js status e = containsCI js (currentStatus e) status"

definition satisfiesId :: "string \<Rightarrow> entry \<Rightarrow> bool" where
  "satisfiesId i e = (idE e = i)"

fun whenProvided :: "string option \<Rightarrow> (string \<Rightarrow> bool) \<Rightarrow> bool" where
  "whenProvided None P = True"
| "whenProvided (Some c) P = (if c = [] then True else P c)"

definition satisfiesProvided :: "runtime \<Rightarrow> searchParams \<Rightarrow> entry \<Rightarrow> bool" where
  "satisfiesProvided js params e =
     (whenProvided (params ''classification'') (\<lambda>c. satisfiesClassification js c e)
      \<and> whenProvided (params ''agency'') (\<lambda>c. satisfiesAgency js c e)
      \<and> whenProvided (params ''community'') (\<lambda>c. satisfiesCommunity js c e)
      \<and> whenProvided (params ''status'') (\<lambda>c. satisfiesStatus js c e)
      \<and> whenProvided (params ''id'') (\<lambda>c. satisfiesId c e))"

text \<open>The conjunction of the tests the handler applies for the provided parameters.\<close>

definition meetsProvided :: "runtime \<Rightarrow> searchParams \<Rightarrow> entry \<Rightarrow> bool" where
  "meetsProvided js params e =
     (whenProvided (params ''classification'') (\<lambda>c. matchClassification js c e)
      \<and> whenProvided (params ''agency'') (\<lambda>c. matchAgency js c e)
      \<and> whenProvided (params ''community'') (\<lambda>c. matchCommunity js c e)
      \<and> whenProvided (params ''status'') (\<lambda>c. matchStatus js c e)
      \<and> whenProvided (params ''id'') (\<lambda>c. matchId c e))"

definition criteriaNames :: "string list" where
  "criteriaNames = [''classification'', ''agency'', ''community'', ''status'', ''id'']"

text \<open>The year component of an ISO date \<open>YYYY-MM-DD\<close>.\<close>

definition yearOf :: "string \<Rightarrow> string" where
  "yearOf date = take 4 date"

text \<open>The backing file cannot be read, or its text cannot be parsed.\<close>

definition loadFails :: "env \<Rightarrow> bool" where
  "loadFails fs =
     (case readFileSync fs of
        Throws \<Rightarrow> True
      | Returns data \<Rightarrow> (case JSON_parse fs data of Throws \<Rightarrow> True | Returns v \<Rightarrow> False))"

text \<open>
  The concatenated searchable text of a record, as the specification lists it: the case
  name, the claims summary, the narrative assessment, the agency names and the community
  labels, separated by single spaces.
\<close>

definition spaced :: "string list \<Rightarrow> string" where
  "spaced xs = (case xs of [] \<Rightarrow> [] | x # ys \<Rightarrow> x @ concat (map (\<lambda>y. CHR '' '' # y) ys))"

definition concatenatedText :: "entry \<Rightarrow> string" where
  "concatenatedText e =
     spaced (caseName e # summary (claimsAndLegalBasis e)
             # narrativeAssessment (culturalImpactAnalysis e)
             # (map agency (agenciesInvolved e)
                @ affectedCommunities (culturalImpactAnalysis e)))"

text \<open>
  The terms of a query text when terms are separated by space characters: the pieces,
  none of which holds a space, that give the text back when written with single spaces
  between them.
\<close>

definition spacePieces :: "string list \<Rightarrow> string \<Rightarrow> bool" where
  "spacePieces ts s = (ts \<noteq> [] \<and> (\<forall>t\<in>set ts. CHR '' '' \<notin> set t) \<and> spaced ts = s)"

section \<open>Relevance search\<close>

text \<open>
  Modelled from the spec: \<open>searchWithRelevance\<close> of \<open>utils/search.js\<close> is not among the
  sources; only a call of it, with the options \<open>minScore\<close> and \<open>maxResults\<close>, is. An
  empty or whitespace-only query is an input error.
\<close>

datatype queryError = QueryRequired

text \<open>
  Modelled from the spec: the options of \<open>searchWithRelevance\<close>; \<open>minScore\<close> excludes
  records below it, \<open>maxResults\<close> truncates the ranked sequence and is unbounded by default.
\<close>

record searchOptions =
  minScore :: nat
  maxResults :: "nat option"

text \<open>
  Modelled from the spec: the query is tokenized by whitespace into lower-case terms.
\<close>

definition isWhitespace :: "char \<Rightarrow> bool" where
  "isWhitespace c = (c \<in> set [CHR '' '', CHR 0x09, CHR 0x0A, CHR 0x0B, CHR 0x0C, CHR 0x0D])"

fun splitWhitespace :: "string \<Rightarrow> string list" where
  "splitWhitespace [] = [[]]"
| "splitWhitespace (c # s) =
     (if isWhitespace c then [] # splitWhitespace s
      else (case splitWhitespace s of [] \<Rightarrow> [[c]] | w # ws \<Rightarrow> (c # w) # ws))"

definition queryTerms :: "runtime \<Rightarrow> string \<Rightarrow> string list" where
  "queryTerms js query = filter (\<lambda>w. w \<noteq> []) (splitWhitespace (toLowerCase js query))"

text \<open>
  Modelled from the spec: the primary field is the title or case name; the secondary
  fields are the narrative and the community labels.
\<close>

definition primaryFields :: "entry \<Rightarrow> string list" where
  "primaryFields e = [caseName e]"

definition secondaryFields :: "entry \<Rightarrow> string list" where
  "secondaryFields e =
     narrativeAssessment (culturalImpactAnalysis e) # affectedCommunities (culturalImpactAnalysis e)"

text \<open>
  Modelled from the spec: the score sums the weighted hits per term, a hit being a field
  that contains the term; the two weights are parameters, the primary one the higher.
\<close>

definition fieldHits :: "runtime \<Rightarrow> string \<Rightarrow> string list \<Rightarrow> nat" where
  "fieldHits js t texts = length (filter (\<lambda>f. includes_str (toLowerCase js f) t) texts)"

definition relevanceScore :: "runtime \<Rightarrow> nat \<Rightarrow> nat \<Rightarrow> string list \<Rightarrow> entry \<Rightarrow> nat" where
  "relevanceScore js wPrimary wSecondary terms e =
     sum_list (map (\<lambda>t. wPrimary * fieldHits js t (primaryFields e)
                        + wSecondary * fieldHits js t (secondaryFields e)) terms)"

text \<open>
  Modelled from the spec: \<open>searchWithRelevance\<close> keeps the records whose searchable text
  contains every term, excludes those scoring below \<open>minScore\<close>, sorts by descending
  score with a stable sort, and truncates to \<open>maxResults\<close>.
\<close>

definition searchWithRelevance ::
  "runtime \<Rightarrow> nat \<Rightarrow> nat \<Rightarrow> entry list \<Rightarrow> string \<Rightarrow> searchOptions \<Rightarrow> queryError + entry list" where
  "searchWithRelevance js wPrimary wSecondary records query options =
     (let terms = queryTerms js query
      in if terms = [] then Inl QueryRequired
         else
           (let matching =
                  filter (\<lambda>e. list_all (\<lambda>t. includes_str (searchableText js e) t) terms) records;
                scored =
                  filter (\<lambda>e. minScore options \<le> relevanceScore js wPrimary wSecondary terms e)
                    matching;
                ranked =
                  sort_key (\<lambda>e. - int (relevanceScore js wPrimary wSecondary terms e)) scored
            in Inr (case maxResults options of None \<Rightarrow> ranked | Some n \<Rightarrow> take n ranked)))"

text \<open>The score of a record for a query, and the records that a search ranks.\<close>

definition score :: "runtime \<Rightarrow> nat \<Rightarrow> nat \<Rightarrow> string \<Rightarrow> entry \<Rightarrow> nat" where
  "score js wPrimary wSecondary query e =
     relevanceScore js wPrimary wSecondary (queryTerms js query) e"

definition eligible ::
  "runtime \<Rightarrow> nat \<Rightarrow> nat \<Rightarrow> string \<Rightarrow> searchOptions \<Rightarrow> entry \<Rightarrow> bool" where
  "eligible js wPrimary wSecondary query options e =
     (list_all (\<lambda>t. includes_str (searchableText js e) t) (queryTerms js query)
      \<and> minScore options \<le> score js wPrimary wSecondary query e)"

text \<open>
  Lower-casing keeps a field recognisable inside the concatenated text: the fields are
  separated by spaces, across which no case mapping looks, so the lower-case form of a
  field occurs in the lower-case form of the concatenation.
\<close>

definition lowerKeepsFields :: "runtime \<Rightarrow> bool" where
  "lowerKeepsFields js =
     (\<forall>texts. \<forall>f\<in>set texts. sublist (toLowerCase js f) (toLowerCase js (join '' '' texts)))"

section \<open>Sample data\<close>

text \<open>
  The strings of the sample records and requests are ASCII; on them the case mappings do
  not consult the runtime, which is taken to map the ASCII letters everywhere.
\<close>

definition sampleRuntime :: runtime where
  "sampleRuntime = \<lparr>lowerUnicode = map toLowerChar, upperUnicode = map toUpperChar\<rparr>"

definition entryA :: entry where
  "entryA =
     \<lparr>idE = ''A'', caseName = ''Alpha Beta Alliance v. EPA'', filingDate = ''2024-03-01'',
      currentStatus = ''Active'',
      claimsAndLegalBasis = \<lparr>summary = ''Clean water claims''\<rparr>,
      agenciesInvolved = [\<lparr>agency = ''EPA'', subAgency = Some ''Office of Water''\<rparr>],
      culturalImpactAnalysis =
        \<lparr>affectedCommunities = [''Indigenous''], narrativeAssessment = ''Sacred rivers''\<rparr>,
      classification = ''CRITICAL''\<rparr>"

definition entryB :: entry where
  "entryB =
     \<lparr>idE = ''B'', caseName = ''Alpha Society v. DOI'', filingDate = ''2025-01-15'',
      currentStatus = ''Dismissed'',
      claimsAndLegalBasis = \<lparr>summary = ''Monument boundaries''\<rparr>,
      agenciesInvolved = [\<lparr>agency = ''DOI'', subAgency = None\<rparr>],
      culturalImpactAnalysis =
        \<lparr>affectedCommunities = [''Latine''], narrativeAssessment = ''Heritage sites''\<rparr>,
      classification = ''PROTECTIVE''\<rparr>"

definition entryC :: entry where
  "entryC =
     \<lparr>idE = ''C'', caseName = ''Gamma v. NPS'', filingDate = ''2025-06-30'',
      currentStatus = ''Active, under review'',
      claimsAndLegalBasis = \<lparr>summary = ''Park access''\<rparr>,
      agenciesInvolved = [],
      culturalImpactAnalysis =
        \<lparr>affectedCommunities = [], narrativeAssessment = ''Trails''\<rparr>,
      classification = ''WATCH''\<rparr>"

definition sampleDb :: database where
  "sampleDb =
     \<lparr>metadata = \<lparr>lastUpdated = ''2025-07-01''\<rparr>,
      litigationEntries = [entryA, entryB, entryC]\<rparr>"

definition sampleEnv :: env where
  "sampleEnv =
     \<lparr>readFileSync = Returns ''{}'', JSON_parse = (\<lambda>data. Returns (Document sampleDb))\<rparr>"

definition entryX :: entry where
  "entryX =
     \<lparr>idE = ''X'', caseName = ''Indigenous Land Trust v. DOI'', filingDate = ''2025-02-01'',
      currentStatus = ''Pending'',
      claimsAndLegalBasis = \<lparr>summary = ''Trust lands''\<rparr>,
      agenciesInvolved = [\<lparr>agency = ''DOI'', subAgency = Some ''BLM''\<rparr>],
      culturalImpactAnalysis =
        \<lparr>affectedCommunities = [''Tribal nations''], narrativeAssessment = ''Land transfers''\<rparr>,
      classification = ''CRITICAL''\<rparr>"

definition entryY :: entry where
  "entryY =
     \<lparr>idE = ''Y'', caseName = ''River Keepers v. EPA'', filingDate = ''2025-03-01'',
      currentStatus = ''Pending'',
      claimsAndLegalBasis = \<lparr>summary = ''Water quality''\<rparr>,
      agenciesInvolved = [\<lparr>agency = ''EPA'', subAgency = None\<rparr>],
      culturalImpactAnalysis =
        \<lparr>affectedCommunities = [''Rural''],
         narrativeAssessment = ''Harms to Indigenous fishing grounds''\<rparr>,
      classification = ''MODERATE''\<rparr>"

definition missingFileEnv :: env where
  "missingFileEnv = \<lparr>readFileSync = Throws, JSON_parse = (\<lambda>data. Returns (Document sampleDb))\<rparr>"

definition corruptFileEnv :: env where
  "corruptFileEnv = \<lparr>readFileSync = Returns ''{'', JSON_parse = (\<lambda>data. Throws)\<rparr>"

text \<open>The sample database with every filing date replaced.\<close>

definition redatedEnv :: env where
  "redatedEnv =
     \<lparr>readFileSync = Returns ''{}'',
      JSON_parse =
        (\<lambda>data. Returns (Document (sampleDb\<lparr>litigationEntries :=
                     map (\<lambda>e. e\<lparr>filingDate := ''1999-01-01''\<rparr>) (litigationEntries sampleDb)\<rparr>)))\<rparr>"

definition onlyParam :: "string \<Rightarrow> string \<Rightarrow> searchParams" where
  "onlyParam name v = (\<lambda>k. if k = name then Some v else None)"

text \<open>
  Strings beyond ASCII, in UTF-8: the sharp s; \<open>LATIN\<close> and \<open>latin\<close> followed by
  the letter e with an acute accent, upper and lower case.
\<close>

definition sharpS :: string where
  "sharpS = [CHR 0xC3, CHR 0x9F]"

definition latineUpper :: string where
  "latineUpper = ''LATIN'' @ [CHR 0xC3, CHR 0x89]"

definition latineLower :: string where
  "latineLower = ''latin'' @ [CHR 0xC3, CHR 0xA9]"

definition commission :: agencyRef where
  "commission = \<lparr>agency = ''FCC'', subAgency = Some ''Federal Communications Commission''\<rparr>"

text \<open>The query \<open>alpha\<close>, a tab, \<open>beta\<close>.\<close>

definition tabQuery :: string where
  "tabQuery = ''alpha'' @ [CHR 0x09] @ ''beta''"

section \<open>Properties of the string operations\<close>

lemma includes_str_sublist: "includes_str s t \<longleftrightarrow> sublist t s"
  by (induction s) (auto simp: sublist_Cons_right)

lemma toLowerCase_ascii: "isAscii s \<Longrightarrow> toLowerCase js s = map toLowerChar s"
  by (simp add: toLowerCase_def)

lemma toUpperCase_ascii: "isAscii s \<Longrightarrow> toUpperCase js s = map toUpperChar s"
  by (simp add: toUpperCase_def)

lemma toLowerCase_sampleRuntime: "toLowerCase sampleRuntime s = map toLowerChar s"
  by (simp add: toLowerCase_def sampleRuntime_def)

lemma toUpperCase_sampleRuntime: "toUpperCase sampleRuntime s = map toUpperChar s"
  by (simp add: toUpperCase_def sampleRuntime_def)

lemma upperKeepsNonEmpty_sampleRuntime: "upperKeepsNonEmpty sampleRuntime"
  by (simp add: upperKeepsNonEmpty_def toUpperCase_sampleRuntime)

lemma toLowerChar_space: "toLowerChar CHR '' '' = CHR '' ''"
  by code_simp

lemma isAscii_spaces: "set s \<subseteq> {CHR '' ''} \<Longrightarrow> isAscii s"
  by (auto simp: isAscii_def list_all_iff)

lemma toLowerCase_spaces: "set s \<subseteq> {CHR '' ''} \<Longrightarrow> toLowerCase js s = s"
proof -
  assume s: "set s \<subseteq> {CHR '' ''}"
  then have "map toLowerChar s = s"
    by (induction s) (simp_all add: toLowerChar_space)
  with s show ?thesis
    by (simp add: toLowerCase_ascii isAscii_spaces)
qed

lemma keyword_ascii:
  "isAscii ''injunction granted''"
  "isAscii ''judgment for plaintiffs''"
  "isAscii ''active''"
  "isAscii ''pending''"
  "isAscii ''dismissed''"
  "isAscii ''withdrew''"
  "isAscii ''review''"
  "isAscii ''watch''"
  "isAscii ''active, under review''"
  by code_simp+

lemma keyword_lower_ascii:
  "map toLowerChar ''injunction granted'' = ''injunction granted''"
  "map toLowerChar ''judgment for plaintiffs'' = ''judgment for plaintiffs''"
  "map toLowerChar ''active'' = ''active''"
  "map toLowerChar ''pending'' = ''pending''"
  "map toLowerChar ''dismissed'' = ''dismissed''"
  "map toLowerChar ''withdrew'' = ''withdrew''"
  "map toLowerChar ''review'' = ''review''"
  "map toLowerChar ''watch'' = ''watch''"
  "map toLowerChar ''active, under review'' = ''active, under review''"
  by code_simp+

lemma keyword_lower:
  "toLowerCase js ''injunction granted'' = ''injunction granted''"
  "toLowerCase js ''judgment for plaintiffs'' = ''judgment for plaintiffs''"
  "toLowerCase js ''active'' = ''active''"
  "toLowerCase js ''pending'' = ''pending''"
  "toLowerCase js ''dismissed'' = ''dismissed''"
  "toLowerCase js ''withdrew'' = ''withdrew''"
  "toLowerCase js ''review'' = ''review''"
  "toLowerCase js ''watch'' = ''watch''"
  "toLowerCase js ''active, under review'' = ''active, under review''"
  by (simp_all only: toLowerCase_ascii keyword_ascii keyword_lower_ascii)

lemma statusCategory_bucketOf: "statusCategory js st = bucketOf js st"
  by (simp add: statusCategory_def bucketOf_def statusBuckets_def containsCI_def
      includes_str_sublist keyword_lower Let_def)

lemma statusCategory_cases:
  "statusCategory js st \<in> {''Protective Outcomes'', ''Active Litigation'',
     ''Dismissed/Withdrawn'', ''Under Review'', ''Other''}"
  by (simp add: statusCategory_def Let_def)

lemma statusCategory_own_key:
  "statusCategory js st \<notin> set objectPrototypeKeys"
  using statusCategory_cases [of js st] by (auto simp: objectPrototypeKeys_def)

lemma statusCategory_active_under_review:
  "statusCategory js ''active, under review'' = ''Active Litigation''"
proof -
  have "\<not> includes_str ''active, under review'' ''injunction granted''"
    and "\<not> includes_str ''active, under review'' ''judgment for plaintiffs''"
    and "includes_str ''active, under review'' ''active''"
    by code_simp+
  then show ?thesis
    by (simp add: statusCategory_def Let_def keyword_lower)
qed

text \<open>Joining with a space writes the texts with single spaces between them.\<close>

lemma join_spaced: "join '' '' xs = spaced xs"
  by (induction "'' ''" xs rule: join.induct) (simp_all add: spaced_def)

lemma searchFields_concatenated: "join '' '' (searchFields e) = concatenatedText e"
  by (simp only: searchFields_def concatenatedText_def join_spaced append.simps)

text \<open>Splitting at the space gives the pieces, and nothing else does.\<close>

lemma split_no_separator: "sep \<notin> set t \<Longrightarrow> split sep t = [t]"
  by (induction t) auto

lemma split_piece: "sep \<notin> set t \<Longrightarrow> split sep (t @ sep # r) = t # split sep r"
  by (induction t) auto

lemma split_spacePieces: "spacePieces ts s \<Longrightarrow> split CHR '' '' s = ts"
proof (induction ts arbitrary: s)
  case Nil
  then show ?case
    by (simp add: spacePieces_def)
next
  case (Cons t ts)
  show ?case
  proof (cases ts)
    case Nil
    with Cons.prems show ?thesis
      by (auto simp: spacePieces_def spaced_def split_no_separator)
  next
    case (Cons u us)
    with Cons.prems have t: "CHR '' '' \<notin> set t" and rest: "spacePieces ts (spaced ts)"
      and s: "s = t @ CHR '' '' # spaced ts"
      by (auto simp: spacePieces_def spaced_def)
    from Cons.IH [OF rest] t s show ?thesis
      by (simp add: split_piece)
  qed
qed

lemma split_nonempty: "split sep s \<noteq> []"
  by (induction s) (auto split: list.splits)

lemma spaced_split: "spaced (split CHR '' '' s) = s"
proof (induction s)
  case Nil
  then show ?case
    by (simp add: spaced_def)
next
  case (Cons c s)
  then show ?case
    by (cases "split CHR '' '' s") (auto simp: spaced_def split_nonempty)
qed

lemma split_no_space: "t \<in> set (split sep s) \<Longrightarrow> sep \<notin> set t"
  by (induction s arbitrary: t) (auto split: if_splits list.splits)

lemma spacePieces_split: "spacePieces (split CHR '' '' s) s"
  by (auto simp: spacePieces_def split_nonempty spaced_split dest: split_no_space)

section \<open>Properties of the count tables\<close>

lemma sumValues_numbersOnly: "numbersOnly acc \<Longrightarrow> sumValues acc = Num (total acc)"
  by (auto simp: sumValues_def numbersOnly_def total_def list_ex_iff image_iff)

lemma total_update_present:
  "map_of acc k = Some v \<Longrightarrow> total (AList.update k w acc) + numeric v = total acc + numeric w"
  by (induction acc) (auto simp: total_def)

lemma total_update_absent:
  "map_of acc k = None \<Longrightarrow> total (AList.update k w acc) = total acc + numeric w"
  by (induction acc) (auto simp: total_def)

lemma values_update: "snd ` set (AList.update k w acc) \<subseteq> insert w (snd ` set acc)"
  by (induction acc) auto

lemma numbersOnly_update: "numbersOnly acc \<Longrightarrow> numbersOnly (AList.update k (Num n) acc)"
  using values_update [of k "Num n" acc] by (auto simp: numbersOnly_def)

lemma map_of_numbersOnly: "numbersOnly acc \<Longrightarrow> map_of acc k = Some v \<Longrightarrow> \<exists>n. v = Num n"
  by (cases v) (auto simp: numbersOnly_def dest!: map_of_SomeD intro: rev_image_eqI)

lemma increment_numbersOnly:
  assumes "k \<notin> set objectPrototypeKeys" and "numbersOnly acc"
  shows "numbersOnly (increment acc k)"
proof (cases "map_of acc k")
  case None
  with assms show ?thesis
    by (auto simp: increment_def objectPrototypeKeys_def intro: numbersOnly_update)
next
  case (Some v)
  with assms(2) obtain n where "v = Num n"
    by (blast dest: map_of_numbersOnly)
  with Some assms(2) show ?thesis
    by (simp add: increment_def numbersOnly_update)
qed

lemma increment_total:
  assumes "k \<notin> set objectPrototypeKeys" and "numbersOnly acc"
  shows "total (increment acc k) = total acc + 1"
proof (cases "map_of acc k")
  case None
  from assms(1) have "k \<noteq> ''__proto__''"
    by (auto simp: objectPrototypeKeys_def)
  with None assms(1) show ?thesis
    by (simp add: increment_def total_update_absent)
next
  case (Some v)
  with assms(2) obtain n where v: "v = Num n"
    by (blast dest: map_of_numbersOnly)
  from total_update_present [OF Some, of "Num (n + 1)"] v Some show ?thesis
    by (simp add: increment_def)
qed

lemma increment_countOf:
  assumes "k \<notin> set objectPrototypeKeys" and "numbersOnly acc"
  shows "countOf (increment acc k) j = countOf acc j + (if j = k then 1 else 0)"
proof (cases "map_of acc k")
  case None
  from assms(1) have "k \<noteq> ''__proto__''"
    by (auto simp: objectPrototypeKeys_def)
  with None assms(1) show ?thesis
    by (simp add: increment_def countOf_def update_conv')
next
  case (Some v)
  with assms(2) obtain n where v: "v = Num n"
    by (blast dest: map_of_numbersOnly)
  with Some show ?thesis
    by (simp add: increment_def countOf_def update_conv')
qed

lemma fold_increment:
  assumes "\<forall>x\<in>set xs. key x \<notin> set objectPrototypeKeys" and "numbersOnly acc"
  shows "numbersOnly (fold (\<lambda>x acc. increment acc (key x)) xs acc)
    \<and> total (fold (\<lambda>x acc. increment acc (key x)) xs acc) = total acc + length xs
    \<and> (\<forall>j. countOf (fold (\<lambda>x acc. increment acc (key x)) xs acc) j
            = countOf acc j + length (filter (\<lambda>x. key x = j) xs))"
  using assms
proof (induction xs arbitrary: acc)
  case Nil
  then show ?case by simp
next
  case (Cons x xs)
  from Cons.prems have k: "key x \<notin> set objectPrototypeKeys" and rest: "\<forall>x\<in>set xs. key x \<notin> set objectPrototypeKeys"
    by simp_all
  note step = increment_numbersOnly [OF k Cons.prems(2)] increment_total [OF k Cons.prems(2)]
    increment_countOf [OF k Cons.prems(2)]
  from Cons.IH [OF rest step(1)] show ?case
    by (auto simp: step)
qed

lemma numbersOnly_Nil: "numbersOnly []"
  by (simp add: numbersOnly_def)

lemma total_Nil: "total [] = 0"
  by (simp add: total_def)

lemma countOf_Nil: "countOf [] j = 0"
  by (simp add: countOf_def)

section \<open>Status buckets\<close>

text \<open>
  C3. The status of a record goes to exactly one bucket, found by the ordered checks of
  the specification (protective outcomes, then active litigation, then dismissed or
  withdrawn, then under review, otherwise \<open>Other\<close>): the aggregator's category is the
  first bucket of \<open>statusBuckets\<close> with a keyword contained in the status, a single
  record yields a table with that one bucket at count 1, and the status
  \<open>active, under review\<close> is counted as Active Litigation.
\<close>

theorem status_bucket_precedence:
  "statusCategory js (currentStatus e) = bucketOf js (currentStatus e)
   \<and> byStatus js [e] = [(bucketOf js (currentStatus e), Num 1)]
   \<and> statusCategory js ''active, under review'' = ''Active Litigation''"
proof -
  have own: "bucketOf js (currentStatus e) \<notin> set objectPrototypeKeys"
    using statusCategory_own_key [of js "currentStatus e"]
    by (simp add: statusCategory_bucketOf)
  then have "bucketOf js (currentStatus e) \<noteq> ''__proto__''"
    by (auto simp: objectPrototypeKeys_def)
  with own have "byStatus js [e] = [(bucketOf js (currentStatus e), Num 1)]"
    by (simp add: byStatus_def increment_def statusCategory_bucketOf)
  then show ?thesis
    by (simp add: statusCategory_bucketOf [symmetric] statusCategory_active_under_review)
qed

theorem status_bucket_precedence_witness:
  "byStatus sampleRuntime [entryC] = [(''Active Litigation'', Num 1)]"
proof -
  have b: "bucketOf sampleRuntime (currentStatus entryC) = ''Active Litigation''"
    by code_simp
  from status_bucket_precedence [of sampleRuntime entryC] show ?thesis
    by (simp only: b)
qed

section \<open>Statistics\<close>

lemma loadDatabase_sampleEnv: "loadDatabase sampleEnv = Document sampleDb"
  by (simp add: loadDatabase_def sampleEnv_def)

lemma litigationEntries_sampleDb: "litigationEntries sampleDb = [entryA, entryB, entryC]"
  by (simp add: sampleDb_def)

lemma handleStatsAPI_loaded:
  "loadDatabase fs = Document db \<Longrightarrow>
   handleStatsAPI js fs =
     Response 200
       (StatsBody (length (litigationEntries db)) (byClassification (litigationEntries db))
          (byAgency (litigationEntries db)) (byCommunity (litigationEntries db))
          (byStatus js (litigationEntries db)) (lastUpdated (metadata db)))"
  by (simp add: handleStatsAPI_def Let_def)

text \<open>
  C10. The status buckets partition the collection: when the database loads, the
  statistics response reports \<open>totalEntries\<close> as the number of records, every bucket of
  \<open>byStatus\<close> counts exactly the records whose status falls in that category, and the
  counts of \<open>byStatus\<close> add up to \<open>totalEntries\<close>.
\<close>

theorem byStatus_partition:
  assumes "loadDatabase fs = Document db"
  shows "handleStatsAPI js fs =
           Response 200
             (StatsBody (length (litigationEntries db)) (byClassification (litigationEntries db))
                (byAgency (litigationEntries db)) (byCommunity (litigationEntries db))
                (byStatus js (litigationEntries db)) (lastUpdated (metadata db)))
         \<and> sumValues (byStatus js (litigationEntries db)) = Num (length (litigationEntries db))
         \<and> (\<forall>j. countOf (byStatus js (litigationEntries db)) j
                = length (filter (\<lambda>e. statusCategory js (currentStatus e) = j)
                            (litigationEntries db)))"
proof -
  let ?es = "litigationEntries db"
  have keys: "\<forall>e\<in>set ?es. statusCategory js (currentStatus e) \<notin> set objectPrototypeKeys"
    by (simp add: statusCategory_own_key)
  note f = fold_increment [OF keys numbersOnly_Nil, folded byStatus_def]
  from f have "sumValues (byStatus js ?es) = Num (length ?es)"
    by (simp add: sumValues_numbersOnly total_Nil)
  moreover from f have "\<forall>j. countOf (byStatus js ?es) j
      = length (filter (\<lambda>e. statusCategory js (currentStatus e) = j) ?es)"
    by (simp add: countOf_Nil)
  ultimately show ?thesis
    using handleStatsAPI_loaded [OF assms, of js] by simp
qed

theorem byStatus_partition_witness:
  "sumValues (byStatus sampleRuntime [entryA, entryB, entryC]) = Num 3
   \<and> countOf (byStatus sampleRuntime [entryA, entryB, entryC]) ''Active Litigation'' = 2"
proof -
  have c: "length (filter (\<lambda>e. statusCategory sampleRuntime (currentStatus e) = ''Active Litigation'')
             [entryA, entryB, entryC]) = 2"
    by code_simp
  note t = byStatus_partition [OF loadDatabase_sampleEnv, of sampleRuntime,
      unfolded litigationEntries_sampleDb]
  from t have "sumValues (byStatus sampleRuntime [entryA, entryB, entryC]) = Num 3"
    by simp
  moreover from t
  have "countOf (byStatus sampleRuntime [entryA, entryB, entryC]) ''Active Litigation''
      = length (filter (\<lambda>e. statusCategory sampleRuntime (currentStatus e) = ''Active Litigation'')
          [entryA, entryB, entryC])"
    by blast
  ultimately show ?thesis
    by (simp only: c)
qed

text \<open>
  C4. When the database loads and no record's classification is a property name that
  an object inherits from \<open>Object.prototype\<close> (the values \<open>CRITICAL\<close>, \<open>PROTECTIVE\<close>,
  \<open>MODERATE\<close> and \<open>WATCH\<close> of the data model are not), the counts of
  \<open>byClassification\<close> add up to the number of records; for the empty collection the
  response is a success whose four tables are empty.
\<close>

theorem byClassification_total:
  assumes "loadDatabase fs = Document db"
    and "\<forall>e\<in>set (litigationEntries db). classification e \<notin> set objectPrototypeKeys"
  shows "handleStatsAPI js fs =
           Response 200
             (StatsBody (length (litigationEntries db)) (byClassification (litigationEntries db))
                (byAgency (litigationEntries db)) (byCommunity (litigationEntries db))
                (byStatus js (litigationEntries db)) (lastUpdated (metadata db)))
         \<and> sumValues (byClassification (litigationEntries db)) = Num (length (litigationEntries db))
         \<and> (litigationEntries db = [] \<longrightarrow>
              byClassification (litigationEntries db) = [] \<and> byAgency (litigationEntries db) = []
              \<and> byCommunity (litigationEntries db) = []
              \<and> byStatus js (litigationEntries db) = [])"
proof -
  let ?es = "litigationEntries db"
  note f = fold_increment [OF assms(2) numbersOnly_Nil, folded byClassification_def]
  from f have "sumValues (byClassification ?es) = Num (length ?es)"
    by (simp add: sumValues_numbersOnly total_Nil)
  moreover have "?es = [] \<longrightarrow>
      byClassification ?es = [] \<and> byAgency ?es = [] \<and> byCommunity ?es = []
      \<and> byStatus js ?es = []"
    by (simp add: byClassification_def byAgency_def byCommunity_def byStatus_def)
  ultimately show ?thesis
    using handleStatsAPI_loaded [OF assms(1), of js] by simp
qed

theorem byClassification_total_witness:
  "sumValues (byClassification [entryA, entryB, entryC]) = Num 3"
proof -
  have own: "\<forall>e\<in>set (litigationEntries sampleDb). classification e \<notin> set objectPrototypeKeys"
    by (simp add: litigationEntries_sampleDb entryA_def entryB_def entryC_def
        objectPrototypeKeys_def)
  from byClassification_total [OF loadDatabase_sampleEnv own, of sampleRuntime] show ?thesis
    by (simp add: litigationEntries_sampleDb)
qed

text \<open>
  The condition on the classification is needed: a classification named like an
  inherited property is counted as a string, not a number.
\<close>

lemma byClassification_inherited_key:
  "sumValues (byClassification [entryA\<lparr>classification := ''constructor''\<rparr>]) = Str"
  by code_simp

section \<open>Filtering\<close>

lemma filterIf_filter: "filterIf p m entries = filter (\<lambda>e. whenProvided p (\<lambda>c. m c e)) entries"
  by (cases p) simp_all

lemma filterEntries_filter:
  "filterEntries js params entries = filter (meetsProvided js params) entries"
  by (auto simp: filterEntries_def Let_def filterIf_filter meetsProvided_def intro!: filter_cong)

lemma matchClassification_satisfies:
  "matchClassification js c e \<longleftrightarrow> satisfiesClassification js c e"
  by (simp add: matchClassification_def satisfiesClassification_def)

lemma toUpperCase_Nil: "toUpperCase js [] = []"
  by (simp add: toUpperCase_def isAscii_def)

lemma matchAgencyRef_imp_satisfies:
  "matchAgencyRef js ag a \<Longrightarrow> satisfiesAgencyRef js ag a"
  by (auto simp: matchAgencyRef_def satisfiesAgencyRef_def sameUpperCase_def
      containsUpperCase_def includes_str_sublist split: option.splits)

lemma matchAgency_imp_satisfies: "matchAgency js ag e \<Longrightarrow> satisfiesAgency js ag e"
  by (auto simp: matchAgency_def satisfiesAgency_def list_ex_iff
      intro: matchAgencyRef_imp_satisfies)

lemma satisfiesAgencyRef_imp_match:
  assumes "upperKeepsNonEmpty js" and "ag \<noteq> []" and "satisfiesAgencyRef js ag a"
  shows "matchAgencyRef js ag a"
proof -
  from assms(1,2) have ne: "toUpperCase js ag \<noteq> []"
    by (simp add: upperKeepsNonEmpty_def)
  show ?thesis
  proof (cases "subAgency a")
    case None
    with assms(3) show ?thesis
      by (simp add: matchAgencyRef_def satisfiesAgencyRef_def sameUpperCase_def)
  next
    case (Some sub)
    show ?thesis
    proof (cases "sub = []")
      case True
      with Some ne assms(3) show ?thesis
        by (simp add: matchAgencyRef_def satisfiesAgencyRef_def sameUpperCase_def
            containsUpperCase_def toUpperCase_Nil)
    next
      case False
      with Some assms(3) show ?thesis
        by (simp add: matchAgencyRef_def satisfiesAgencyRef_def sameUpperCase_def
            containsUpperCase_def includes_str_sublist)
    qed
  qed
qed

lemma matchAgency_satisfies:
  "upperKeepsNonEmpty js \<Longrightarrow> ag \<noteq> [] \<Longrightarrow> matchAgency js ag e \<longleftrightarrow> satisfiesAgency js ag e"
  by (auto simp: matchAgency_def satisfiesAgency_def list_ex_iff
      intro: matchAgencyRef_imp_satisfies satisfiesAgencyRef_imp_match)

lemma matchCommunity_satisfies: "matchCommunity js c e \<longleftrightarrow> satisfiesCommunity js c e"
  by (simp add: matchCommunity_def satisfiesCommunity_def list_ex_iff includes_str_sublist
      containsCI_def)

lemma matchStatus_satisfies: "matchStatus js c e \<longleftrightarrow> satisfiesStatus js c e"
  by (simp add: matchStatus_def satisfiesStatus_def includes_str_sublist containsCI_def)

lemma matchId_satisfies: "matchId c e \<longleftrightarrow> satisfiesId c e"
  by (simp add: matchId_def satisfiesId_def)

lemma whenProvided_mono:
  "whenProvided p P \<Longrightarrow> (\<And>c. c \<noteq> [] \<Longrightarrow> P c \<Longrightarrow> Q c) \<Longrightarrow> whenProvided p Q"
  by (cases p) (auto split: if_splits)

lemma meetsProvided_satisfies: "meetsProvided js params e \<Longrightarrow> satisfiesProvided js params e"
  unfolding meetsProvided_def satisfiesProvided_def
  by (auto elim!: whenProvided_mono
      simp: matchClassification_satisfies matchAgency_imp_satisfies matchCommunity_satisfies
        matchStatus_satisfies matchId_satisfies)

lemma whenProvided_not_truthy: "\<not> truthy p \<Longrightarrow> whenProvided p P"
  by (cases p) auto

lemma meetsProvided_none:
  "\<forall>k\<in>set criteriaNames. \<not> truthy (params k) \<Longrightarrow> meetsProvided js params e"
  by (simp add: meetsProvided_def criteriaNames_def whenProvided_not_truthy)

lemma handleLitigationAPI_loaded:
  "loadDatabase fs = Document db \<Longrightarrow>
   handleLitigationAPI js fs params =
     Response 200
       (LitigationBody (length (filterEntries js params (litigationEntries db)))
          (filterEntries js params (litigationEntries db)) (metadata db))"
  by (simp add: handleLitigationAPI_def Let_def)

text \<open>
  C1. When the database loads, the entries of the filter response are a subsequence of
  the collection, in the collection's order; each of them satisfies every provided
  criterion (classification, agency, community, status, id); they are exactly the
  records that pass the tests of the provided criteria, so that an absent or empty
  criterion removes nothing; and with no criterion provided the whole collection is
  returned. This holds whatever the case mappings of the runtime are.
\<close>

theorem filter_subset_law:
  assumes "loadDatabase fs = Document db"
  shows "handleLitigationAPI js fs params =
           Response 200
             (LitigationBody (length (filterEntries js params (litigationEntries db)))
                (filterEntries js params (litigationEntries db)) (metadata db))
         \<and> subseq (filterEntries js params (litigationEntries db)) (litigationEntries db)
         \<and> (\<forall>e\<in>set (filterEntries js params (litigationEntries db)).
               satisfiesProvided js params e)
         \<and> filterEntries js params (litigationEntries db)
             = filter (meetsProvided js params) (litigationEntries db)
         \<and> ((\<forall>k\<in>set criteriaNames. \<not> truthy (params k)) \<longrightarrow>
              filterEntries js params (litigationEntries db) = litigationEntries db)"
proof -
  let ?es = "litigationEntries db"
  have "subseq (filterEntries js params ?es) ?es"
    by (simp add: filterEntries_filter)
  moreover have "\<forall>e\<in>set (filterEntries js params ?es). satisfiesProvided js params e"
    by (simp add: filterEntries_filter meetsProvided_satisfies)
  moreover have "(\<forall>k\<in>set criteriaNames. \<not> truthy (params k)) \<longrightarrow>
      filterEntries js params ?es = ?es"
    by (simp add: filterEntries_filter meetsProvided_none)
  ultimately show ?thesis
    using handleLitigationAPI_loaded [OF assms, of js params]
      filterEntries_filter [of js params ?es]
    by blast
qed

theorem filter_subset_law_witness:
  "handleLitigationAPI sampleRuntime sampleEnv (onlyParam ''classification'' ''critical'')
     = Response 200 (LitigationBody 1 [entryA] (metadata sampleDb))
   \<and> subseq [entryA] [entryA, entryB, entryC]
   \<and> satisfiesProvided sampleRuntime (onlyParam ''classification'' ''critical'') entryA"
proof -
  have up: "toUpperCase sampleRuntime ''critical'' = ''CRITICAL''"
    by code_simp
  have f: "filterEntries sampleRuntime (onlyParam ''classification'' ''critical'')
      [entryA, entryB, entryC] = [entryA]"
    by (simp add: filterEntries_def Let_def onlyParam_def matchClassification_def up
        entryA_def entryB_def entryC_def)
  note t = filter_subset_law [OF loadDatabase_sampleEnv,
      of sampleRuntime "onlyParam ''classification'' ''critical''",
      unfolded litigationEntries_sampleDb f]
  from t have r: "handleLitigationAPI sampleRuntime sampleEnv
      (onlyParam ''classification'' ''critical'')
      = Response 200 (LitigationBody (length [entryA]) [entryA] (metadata sampleDb))"
    by (rule conjunct1)
  from t have s: "subseq [entryA] [entryA, entryB, entryC]"
    by (rule conjunct2 [THEN conjunct1])
  from t have "\<forall>e\<in>set [entryA].
      satisfiesProvided sampleRuntime (onlyParam ''classification'' ''critical'') e"
    by (rule conjunct2 [THEN conjunct2, THEN conjunct1])
  then have "satisfiesProvided sampleRuntime (onlyParam ''classification'' ''critical'') entryA"
    by simp
  with r s show ?thesis
    by simp
qed

text \<open>
  C8. For a provided agency criterion, a record passes the agency test exactly when
  one of its agency references has a code equal to the criterion up to case, or a
  sub-agency code containing the criterion up to case, case being folded to upper case
  by the runtime, whose upper-casing gives the empty string for the empty string only.
  Every returned record satisfies this; with the agency as the only provided criterion
  the response holds exactly the records that do; and when no record does, the response
  is a success with count 0 and no entries.
\<close>

theorem agency_filter_law:
  assumes "upperKeepsNonEmpty js"
    and "loadDatabase fs = Document db" and "params ''agency'' = Some ag" and "ag \<noteq> []"
  shows "(matchAgency js ag e \<longleftrightarrow> satisfiesAgency js ag e)
         \<and> (\<forall>x\<in>set (filterEntries js params (litigationEntries db)). satisfiesAgency js ag x)
         \<and> ((\<forall>k\<in>set criteriaNames. k \<noteq> ''agency'' \<longrightarrow> \<not> truthy (params k)) \<longrightarrow>
              handleLitigationAPI js fs params =
                Response 200
                  (LitigationBody
                     (length (filter (satisfiesAgency js ag) (litigationEntries db)))
                     (filter (satisfiesAgency js ag) (litigationEntries db)) (metadata db)))
         \<and> ((\<forall>x\<in>set (litigationEntries db). \<not> satisfiesAgency js ag x) \<longrightarrow>
              handleLitigationAPI js fs params = Response 200 (LitigationBody 0 [] (metadata db)))"
proof -
  let ?es = "litigationEntries db"
  note iff = matchAgency_satisfies [OF assms(1) assms(4)]
  have meets: "meetsProvided js params x \<Longrightarrow> satisfiesAgency js ag x" for x
    using assms(3,4) by (simp add: meetsProvided_def matchAgency_imp_satisfies)
  have only: "meetsProvided js params = satisfiesAgency js ag"
    if "\<forall>k\<in>set criteriaNames. k \<noteq> ''agency'' \<longrightarrow> \<not> truthy (params k)"
    using that assms(3,4)
    by (auto simp: meetsProvided_def criteriaNames_def whenProvided_not_truthy iff fun_eq_iff)
  have "matchAgency js ag e \<longleftrightarrow> satisfiesAgency js ag e"
    by (rule iff)
  moreover have "\<forall>x\<in>set (filterEntries js params ?es). satisfiesAgency js ag x"
    by (simp add: filterEntries_filter meets)
  moreover have "(\<forall>k\<in>set criteriaNames. k \<noteq> ''agency'' \<longrightarrow> \<not> truthy (params k)) \<longrightarrow>
      handleLitigationAPI js fs params =
        Response 200 (LitigationBody (length (filter (satisfiesAgency js ag) ?es))
          (filter (satisfiesAgency js ag) ?es) (metadata db))"
    using handleLitigationAPI_loaded [OF assms(2), of js params]
    by (auto simp: filterEntries_filter only)
  moreover have "(\<forall>x\<in>set ?es. \<not> satisfiesAgency js ag x) \<longrightarrow>
      handleLitigationAPI js fs params = Response 200 (LitigationBody 0 [] (metadata db))"
  proof
    assume "\<forall>x\<in>set ?es. \<not> satisfiesAgency js ag x"
    with meets have "filter (meetsProvided js params) ?es = []"
      by (auto simp: filter_empty_conv)
    with handleLitigationAPI_loaded [OF assms(2), of js params] show
      "handleLitigationAPI js fs params = Response 200 (LitigationBody 0 [] (metadata db))"
      by (simp add: filterEntries_filter)
  qed
  ultimately show ?thesis
    by blast
qed

theorem agency_filter_law_witness:
  "matchAgency sampleRuntime ''water'' entryA
   \<and> handleLitigationAPI sampleRuntime sampleEnv (onlyParam ''agency'' ''water'')
       = Response 200 (LitigationBody 1 [entryA] (metadata sampleDb))
   \<and> handleLitigationAPI sampleRuntime sampleEnv (onlyParam ''agency'' ''xyz'')
       = Response 200 (LitigationBody 0 [] (metadata sampleDb))"
proof -
  have only: "\<forall>k\<in>set criteriaNames. k \<noteq> ''agency'' \<longrightarrow> \<not> truthy (onlyParam ''agency'' ag k)" for ag
    by (simp add: criteriaNames_def onlyParam_def)
  have a: "satisfiesAgency sampleRuntime ''water'' entryA"
    by code_simp
  have b: "\<not> satisfiesAgency sampleRuntime ''water'' entryB"
    by code_simp
  have c: "\<not> satisfiesAgency sampleRuntime ''water'' entryC"
    by code_simp
  have none: "\<forall>x\<in>set (litigationEntries sampleDb). \<not> satisfiesAgency sampleRuntime ''xyz'' x"
    unfolding litigationEntries_sampleDb by code_simp
  have pw: "onlyParam ''agency'' ''water'' ''agency'' = Some ''water''"
    and px: "onlyParam ''agency'' ''xyz'' ''agency'' = Some ''xyz''"
    by (simp_all add: onlyParam_def)
  have nw: "''water'' \<noteq> []" and nx: "''xyz'' \<noteq> []"
    by simp_all
  note w = agency_filter_law [of sampleRuntime sampleEnv sampleDb
      "onlyParam ''agency'' ''water''" "''water''" entryA,
      OF upperKeepsNonEmpty_sampleRuntime loadDatabase_sampleEnv pw nw]
  note x = agency_filter_law [of sampleRuntime sampleEnv sampleDb
      "onlyParam ''agency'' ''xyz''" "''xyz''" entryA,
      OF upperKeepsNonEmpty_sampleRuntime loadDatabase_sampleEnv px nx]
  from w a have "matchAgency sampleRuntime ''water'' entryA"
    by simp
  moreover from w only
  have "handleLitigationAPI sampleRuntime sampleEnv (onlyParam ''agency'' ''water'')
       = Response 200
           (LitigationBody
              (length (filter (satisfiesAgency sampleRuntime ''water'') (litigationEntries sampleDb)))
              (filter (satisfiesAgency sampleRuntime ''water'') (litigationEntries sampleDb))
              (metadata sampleDb))"
    by simp
  moreover from x none
  have "handleLitigationAPI sampleRuntime sampleEnv (onlyParam ''agency'' ''xyz'')
       = Response 200 (LitigationBody 0 [] (metadata sampleDb))"
    by simp
  ultimately show ?thesis
    by (simp add: litigationEntries_sampleDb a b c)
qed

section \<open>Searching\<close>

lemma searchEntries_pieces:
  assumes "spacePieces ts (toLowerCase js query)"
  shows "searchEntries js query entries =
     filter (\<lambda>e. \<forall>t\<in>set ts. sublist t (toLowerCase js (concatenatedText e))) entries"
  by (simp add: searchEntries_def Let_def split_spacePieces [OF assms] searchableText_def
      searchFields_concatenated list_all_iff includes_str_sublist)

lemma handleSearchAPI_loaded:
  "loadDatabase fs = Document db \<Longrightarrow> params ''q'' = Some query \<Longrightarrow> query \<noteq> [] \<Longrightarrow>
   handleSearchAPI js fs params =
     Response 200
       (SearchBody query (length (searchEntries js query (litigationEntries db)))
          (searchEntries js query (litigationEntries db)))"
  by (simp add: handleSearchAPI_def Let_def)

text \<open>
  C2, as amended. When the database loads and the query is not empty, the lower-cased
  query has terms separated by space characters, and the search response holds exactly
  the records whose concatenated searchable text (case name, claims summary, narrative
  assessment, agency names, community labels, separated by spaces), lower-cased, contains
  every one of these terms; a record missing one of the terms is not in the results.
  Only the space character separates terms.
\<close>

theorem search_space_separated_terms:
  assumes "loadDatabase fs = Document db" and "params ''q'' = Some query" and "query \<noteq> []"
  shows "(\<exists>ts. spacePieces ts (toLowerCase js query))
         \<and> (\<forall>ts. spacePieces ts (toLowerCase js query) \<longrightarrow>
               handleSearchAPI js fs params =
                 Response 200
                   (SearchBody query
                      (length (filter (\<lambda>e. \<forall>t\<in>set ts.
                                   sublist t (toLowerCase js (concatenatedText e)))
                                 (litigationEntries db)))
                      (filter (\<lambda>e. \<forall>t\<in>set ts.
                                   sublist t (toLowerCase js (concatenatedText e)))
                         (litigationEntries db))))"
proof (intro conjI allI impI)
  show "\<exists>ts. spacePieces ts (toLowerCase js query)"
    using spacePieces_split by blast
next
  fix ts
  assume "spacePieces ts (toLowerCase js query)"
  then show "handleSearchAPI js fs params =
      Response 200
        (SearchBody query
           (length (filter (\<lambda>e. \<forall>t\<in>set ts. sublist t (toLowerCase js (concatenatedText e)))
                      (litigationEntries db)))
           (filter (\<lambda>e. \<forall>t\<in>set ts. sublist t (toLowerCase js (concatenatedText e)))
              (litigationEntries db)))"
    using handleSearchAPI_loaded [of fs db params query js, OF assms]
    by (simp add: searchEntries_pieces)
qed

text \<open>
  C2 as stated fails: for the query \<open>alpha\<close>, tab, \<open>beta\<close>, whose whitespace terms are
  \<open>alpha\<close> and \<open>beta\<close>, the first sample record contains both terms and is not returned.
\<close>

theorem tab_query_counterexample:
  "handleSearchAPI sampleRuntime sampleEnv (onlyParam ''q'' tabQuery)
     = Response 200 (SearchBody tabQuery 0 [])
   \<and> queryTerms sampleRuntime tabQuery = [''alpha'', ''beta'']
   \<and> containsCI sampleRuntime (concatenatedText entryA) ''alpha''
   \<and> containsCI sampleRuntime (concatenatedText entryA) ''beta''"
proof -
  have s: "searchEntries sampleRuntime tabQuery [entryA, entryB, entryC] = []"
    by code_simp
  have ne: "tabQuery \<noteq> []"
    by (simp add: tabQuery_def)
  have "handleSearchAPI sampleRuntime sampleEnv (onlyParam ''q'' tabQuery)
      = Response 200 (SearchBody tabQuery 0 [])"
    using ne
    by (simp add: handleSearchAPI_def loadDatabase_sampleEnv onlyParam_def
        litigationEntries_sampleDb s)
  moreover have "queryTerms sampleRuntime tabQuery = [''alpha'', ''beta'']"
    by code_simp
  moreover have "containsCI sampleRuntime (concatenatedText entryA) ''alpha''"
    by code_simp
  moreover have "containsCI sampleRuntime (concatenatedText entryA) ''beta''"
    by code_simp
  ultimately show ?thesis
    by blast
qed

theorem search_space_separated_terms_witness:
  "handleSearchAPI sampleRuntime sampleEnv (onlyParam ''q'' ''beta ALPHA'')
     = Response 200 (SearchBody ''beta ALPHA'' 1 [entryA])
   \<and> sublist ''alpha'' (toLowerCase sampleRuntime (concatenatedText entryB))
   \<and> \<not> sublist ''beta'' (toLowerCase sampleRuntime (concatenatedText entryB))"
proof -
  have q: "onlyParam ''q'' ''beta ALPHA'' ''q'' = Some ''beta ALPHA''"
    by (simp add: onlyParam_def)
  have ne: "''beta ALPHA'' \<noteq> []"
    by simp
  have low: "toLowerCase sampleRuntime ''beta ALPHA'' = ''beta alpha''"
    by code_simp
  have p: "spacePieces [''beta'', ''alpha''] (toLowerCase sampleRuntime ''beta ALPHA'')"
    unfolding low by (simp add: spacePieces_def spaced_def)
  have a: "sublist ''beta'' (toLowerCase sampleRuntime (concatenatedText entryA))"
    and a': "sublist ''alpha'' (toLowerCase sampleRuntime (concatenatedText entryA))"
    and b: "\<not> sublist ''beta'' (toLowerCase sampleRuntime (concatenatedText entryB))"
    and b': "sublist ''alpha'' (toLowerCase sampleRuntime (concatenatedText entryB))"
    and c: "\<not> sublist ''beta'' (toLowerCase sampleRuntime (concatenatedText entryC))"
    by code_simp+
  note t = search_space_separated_terms [of sampleEnv sampleDb "onlyParam ''q'' ''beta ALPHA''"
      "''beta ALPHA''" sampleRuntime, OF loadDatabase_sampleEnv q ne]
  from t p have "handleSearchAPI sampleRuntime sampleEnv (onlyParam ''q'' ''beta ALPHA'')
      = Response 200
          (SearchBody ''beta ALPHA''
             (length (filter (\<lambda>e. \<forall>t\<in>set [''beta'', ''alpha''].
                          sublist t (toLowerCase sampleRuntime (concatenatedText e)))
                        (litigationEntries sampleDb)))
             (filter (\<lambda>e. \<forall>t\<in>set [''beta'', ''alpha''].
                          sublist t (toLowerCase sampleRuntime (concatenatedText e)))
                (litigationEntries sampleDb)))"
    by blast
  then have "handleSearchAPI sampleRuntime sampleEnv (onlyParam ''q'' ''beta ALPHA'')
      = Response 200 (SearchBody ''beta ALPHA'' 1 [entryA])"
    by (simp add: litigationEntries_sampleDb a a' b c)
  with b b' show ?thesis
    by simp
qed

lemma split_spaces:
  "set query \<subseteq> {CHR '' ''} \<Longrightarrow> set (split CHR '' '' query) \<subseteq> {[]}"
  by (induction query) auto

lemma includes_str_empty: "includes_str s []"
  by (simp add: includes_str_sublist)

lemma searchEntries_spaces:
  "set query \<subseteq> {CHR '' ''} \<Longrightarrow> searchEntries js query entries = entries"
  using split_spaces [of query]
  by (auto simp: searchEntries_def Let_def toLowerCase_spaces list_all_iff includes_str_empty
      filter_id_conv)

text \<open>
  C6, as amended. When the database loads, the search is rejected with 400
  \<open>Search query required\<close> exactly when the query is missing or empty, and never with
  the data-unavailability error; a non-empty query made only of spaces is accepted and
  returns the whole collection.
\<close>

theorem search_query_required:
  assumes "loadDatabase fs = Document db"
  shows "(handleSearchAPI js fs params = Response 400 (ErrorBody ''Search query required'')
           \<longleftrightarrow> params ''q'' = None \<or> params ''q'' = Some [])
         \<and> (handleSearchAPI js fs params \<noteq> Response 500 (ErrorBody ''Database not available''))
         \<and> (params ''q'' = Some query \<and> query \<noteq> [] \<and> set query \<subseteq> {CHR '' ''} \<longrightarrow>
               handleSearchAPI js fs params =
                 Response 200
                   (SearchBody query (length (litigationEntries db)) (litigationEntries db)))"
  using assms
  by (auto simp: handleSearchAPI_def Let_def searchEntries_spaces split: option.splits)

text \<open>
  C6 as stated fails: the query of a single space is answered with a success holding
  every record.
\<close>

theorem whitespace_query_counterexample:
  "handleSearchAPI sampleRuntime sampleEnv (onlyParam ''q'' '' '')
     = Response 200 (SearchBody '' '' 3 [entryA, entryB, entryC])"
  by (simp add: handleSearchAPI_def loadDatabase_sampleEnv onlyParam_def searchEntries_spaces
      litigationEntries_sampleDb)

theorem search_query_required_witness:
  "handleSearchAPI sampleRuntime sampleEnv (\<lambda>k. None)
     = Response 400 (ErrorBody ''Search query required'')
   \<and> handleSearchAPI sampleRuntime sampleEnv (onlyParam ''q'' '''')
       = Response 400 (ErrorBody ''Search query required'')
   \<and> handleSearchAPI sampleRuntime sampleEnv (onlyParam ''q'' ''  '')
       = Response 200 (SearchBody ''  '' 3 [entryA, entryB, entryC])"
proof -
  note t1 = search_query_required [OF loadDatabase_sampleEnv,
      of sampleRuntime "\<lambda>k. None" "''  ''"]
  note t2 = search_query_required [OF loadDatabase_sampleEnv,
      of sampleRuntime "onlyParam ''q'' ''''" "''  ''"]
  note t3 = search_query_required [OF loadDatabase_sampleEnv,
      of sampleRuntime "onlyParam ''q'' ''  ''" "''  ''"]
  from t1 have "handleSearchAPI sampleRuntime sampleEnv (\<lambda>k. None)
      = Response 400 (ErrorBody ''Search query required'')"
    by simp
  moreover from t2 have "handleSearchAPI sampleRuntime sampleEnv (onlyParam ''q'' '''')
      = Response 400 (ErrorBody ''Search query required'')"
    by (simp add: onlyParam_def)
  moreover from t3 have "handleSearchAPI sampleRuntime sampleEnv (onlyParam ''q'' ''  '')
      = Response 200 (SearchBody ''  '' 3 [entryA, entryB, entryC])"
    by (simp add: onlyParam_def litigationEntries_sampleDb)
  ultimately show ?thesis
    by blast
qed

section \<open>Unavailable data and empty results\<close>

lemma loadFails_loadDatabase: "loadFails fs \<Longrightarrow> loadDatabase fs = JsFalsy"
  by (auto simp: loadFails_def loadDatabase_def split: outcome.splits)

lemma filterEntries_none_satisfies:
  "\<forall>e\<in>set entries. \<not> satisfiesProvided js params e \<Longrightarrow> filterEntries js params entries = []"
  by (auto simp: filterEntries_filter filter_empty_conv dest: meetsProvided_satisfies)

text \<open>
  C5. When the backing file cannot be read or parsed, each of the three handlers
  answers with the error response 500 \<open>Database not available\<close>, which is not a
  success; when the database loads and no record satisfies the provided criteria, the
  filter answers with a success of count 0 and no entries, and when the database loads
  and every record misses some term of a non-empty query, the search answers with a
  success of count 0 and no results. This holds whatever the case mappings of the
  runtime are.
\<close>

theorem load_failure_is_an_error:
  "(loadFails fs \<longrightarrow>
      handleLitigationAPI js fs params = Response 500 (ErrorBody ''Database not available'')
      \<and> handleSearchAPI js fs params = Response 500 (ErrorBody ''Database not available'')
      \<and> handleStatsAPI js fs = Response 500 (ErrorBody ''Database not available''))
   \<and> (loadDatabase fs = Document db
        \<and> (\<forall>e\<in>set (litigationEntries db). \<not> satisfiesProvided js params e) \<longrightarrow>
      handleLitigationAPI js fs params = Response 200 (LitigationBody 0 [] (metadata db)))
   \<and> (loadDatabase fs = Document db \<and> params ''q'' = Some query \<and> query \<noteq> []
        \<and> spacePieces ts (toLowerCase js query)
        \<and> (\<forall>e\<in>set (litigationEntries db).
              \<exists>t\<in>set ts. \<not> sublist t (toLowerCase js (concatenatedText e))) \<longrightarrow>
      handleSearchAPI js fs params = Response 200 (SearchBody query 0 []))"
proof -
  have "handleLitigationAPI js fs params = Response 500 (ErrorBody ''Database not available'')
      \<and> handleSearchAPI js fs params = Response 500 (ErrorBody ''Database not available'')
      \<and> handleStatsAPI js fs = Response 500 (ErrorBody ''Database not available'')"
    if "loadFails fs"
    using loadFails_loadDatabase [OF that]
    by (simp add: handleLitigationAPI_def handleSearchAPI_def handleStatsAPI_def
        databaseNotAvailable_def)
  moreover
  have "handleLitigationAPI js fs params = Response 200 (LitigationBody 0 [] (metadata db))"
    if "loadDatabase fs = Document db"
      and "\<forall>e\<in>set (litigationEntries db). \<not> satisfiesProvided js params e"
    using handleLitigationAPI_loaded [OF that(1), of js params]
      filterEntries_none_satisfies [OF that(2)]
    by simp
  moreover have "handleSearchAPI js fs params = Response 200 (SearchBody query 0 [])"
    if "loadDatabase fs = Document db" and "params ''q'' = Some query" and "query \<noteq> []"
      and "spacePieces ts (toLowerCase js query)"
      and "\<forall>e\<in>set (litigationEntries db).
             \<exists>t\<in>set ts. \<not> sublist t (toLowerCase js (concatenatedText e))"
  proof -
    from that(5) have "searchEntries js query (litigationEntries db) = []"
      by (auto simp: searchEntries_pieces [OF that(4)] filter_empty_conv)
    with handleSearchAPI_loaded [of fs db params query js, OF that(1-3)] show ?thesis
      by simp
  qed
  ultimately show ?thesis
    by blast
qed

theorem load_failure_is_an_error_witness:
  "handleLitigationAPI sampleRuntime missingFileEnv (onlyParam ''id'' ''Z'')
     = Response 500 (ErrorBody ''Database not available'')
   \<and> handleSearchAPI sampleRuntime corruptFileEnv (onlyParam ''q'' ''zebra'')
     = Response 500 (ErrorBody ''Database not available'')
   \<and> handleStatsAPI sampleRuntime corruptFileEnv
     = Response 500 (ErrorBody ''Database not available'')
   \<and> handleLitigationAPI sampleRuntime sampleEnv (onlyParam ''id'' ''Z'')
     = Response 200 (LitigationBody 0 [] (metadata sampleDb))
   \<and> handleSearchAPI sampleRuntime sampleEnv (onlyParam ''q'' ''zebra'')
     = Response 200 (SearchBody ''zebra'' 0 [])"
proof -
  have m: "loadFails missingFileEnv" and c: "loadFails corruptFileEnv"
    by (simp_all add: loadFails_def missingFileEnv_def corruptFileEnv_def)
  have noId: "\<forall>e\<in>set (litigationEntries sampleDb).
      \<not> satisfiesProvided sampleRuntime (onlyParam ''id'' ''Z'') e"
    by (simp add: litigationEntries_sampleDb satisfiesProvided_def onlyParam_def satisfiesId_def
        entryA_def entryB_def entryC_def)
  have q: "onlyParam ''q'' ''zebra'' ''q'' = Some ''zebra''"
    by (simp add: onlyParam_def)
  have ne: "''zebra'' \<noteq> []"
    by simp
  have low: "toLowerCase sampleRuntime ''zebra'' = ''zebra''"
    by code_simp
  have p: "spacePieces [''zebra''] (toLowerCase sampleRuntime ''zebra'')"
    unfolding low by (simp add: spacePieces_def spaced_def)
  have za: "\<not> sublist ''zebra'' (toLowerCase sampleRuntime (concatenatedText entryA))"
    and zb: "\<not> sublist ''zebra'' (toLowerCase sampleRuntime (concatenatedText entryB))"
    and zc: "\<not> sublist ''zebra'' (toLowerCase sampleRuntime (concatenatedText entryC))"
    by code_simp+
  have noZebra: "\<forall>e\<in>set (litigationEntries sampleDb).
      \<exists>t\<in>set [''zebra'']. \<not> sublist t (toLowerCase sampleRuntime (concatenatedText e))"
    by (simp add: litigationEntries_sampleDb za zb zc)
  note t1 = load_failure_is_an_error [of missingFileEnv sampleRuntime "onlyParam ''id'' ''Z''"
      sampleDb "''zebra''" "[''zebra'']"]
  note t2 = load_failure_is_an_error [of corruptFileEnv sampleRuntime "onlyParam ''q'' ''zebra''"
      sampleDb "''zebra''" "[''zebra'']"]
  note t3 = load_failure_is_an_error [of sampleEnv sampleRuntime "onlyParam ''id'' ''Z''"
      sampleDb "''zebra''" "[''zebra'']"]
  note t4 = load_failure_is_an_error [of sampleEnv sampleRuntime "onlyParam ''q'' ''zebra''"
      sampleDb "''zebra''" "[''zebra'']"]
  from t1 m have "handleLitigationAPI sampleRuntime missingFileEnv (onlyParam ''id'' ''Z'')
     = Response 500 (ErrorBody ''Database not available'')"
    by blast
  moreover from t2 c
  have "handleSearchAPI sampleRuntime corruptFileEnv (onlyParam ''q'' ''zebra'')
     = Response 500 (ErrorBody ''Database not available'')"
    by blast
  moreover from t2 c have "handleStatsAPI sampleRuntime corruptFileEnv
     = Response 500 (ErrorBody ''Database not available'')"
    by blast
  moreover from t3 loadDatabase_sampleEnv noId
  have "handleLitigationAPI sampleRuntime sampleEnv (onlyParam ''id'' ''Z'')
     = Response 200 (LitigationBody 0 [] (metadata sampleDb))"
    by blast
  moreover from t4 loadDatabase_sampleEnv q ne p noZebra
  have "handleSearchAPI sampleRuntime sampleEnv (onlyParam ''q'' ''zebra'')
     = Response 200 (SearchBody ''zebra'' 0 [])"
    by blast
  ultimately show ?thesis
    by blast
qed

section \<open>What the filter reads\<close>

lemma filterEntries_depends_on_criteria:
  assumes "\<forall>k\<in>set criteriaNames. params' k = params k"
  shows "filterEntries js params' entries = filterEntries js params entries"
  using assms by (simp add: filterEntries_def criteriaNames_def)

lemma handleLitigationAPI_same_filter:
  "filterEntries js params' = filterEntries js params \<Longrightarrow>
   handleLitigationAPI js fs params' = handleLitigationAPI js fs params"
  by (cases "loadDatabase fs") (simp_all add: handleLitigationAPI_def)

lemma meetsProvided_filingDate:
  "meetsProvided js params (e\<lparr>filingDate := d\<rparr>) = meetsProvided js params e"
  by (simp add: meetsProvided_def matchClassification_def matchAgency_def matchCommunity_def
      matchStatus_def matchId_def)

lemma filterEntries_filingDate:
  "filterEntries js params (map (\<lambda>e. e\<lparr>filingDate := h e\<rparr>) entries)
     = map (\<lambda>e. e\<lparr>filingDate := h e\<rparr>) (filterEntries js params entries)"
  by (simp add: filterEntries_filter filter_map comp_def meetsProvided_filingDate)

text \<open>
  C7, as amended. The filter handler reads the parameters \<open>classification\<close>,
  \<open>agency\<close>, \<open>community\<close>, \<open>status\<close> and \<open>id\<close> only: two requests that agree on
  these five get the same response, so that a \<open>year\<close> parameter is ignored, whatever
  its value. The filing date of a record is not consulted: on a collection whose filing
  dates are changed at will, the handler returns the same records, with the changed
  dates.
\<close>

theorem filter_reads_five_criteria:
  "(\<forall>params'. (\<forall>k\<in>set criteriaNames. params' k = params k) \<longrightarrow>
       handleLitigationAPI js fs params' = handleLitigationAPI js fs params)
   \<and> handleLitigationAPI js fs (params(''year'' := y)) = handleLitigationAPI js fs params
   \<and> (loadDatabase fs = Document db
        \<and> loadDatabase fs' =
            Document (db\<lparr>litigationEntries :=
                          map (\<lambda>e. e\<lparr>filingDate := h e\<rparr>) (litigationEntries db)\<rparr>) \<longrightarrow>
       handleLitigationAPI js fs params =
         Response 200
           (LitigationBody (length (filterEntries js params (litigationEntries db)))
              (filterEntries js params (litigationEntries db)) (metadata db))
       \<and> handleLitigationAPI js fs' params =
         Response 200
           (LitigationBody (length (filterEntries js params (litigationEntries db)))
              (map (\<lambda>e. e\<lparr>filingDate := h e\<rparr>) (filterEntries js params (litigationEntries db)))
              (metadata db)))"
proof (intro conjI allI impI)
  fix params'
  assume "\<forall>k\<in>set criteriaNames. params' k = params k"
  then have "filterEntries js params' entries = filterEntries js params entries" for entries
    by (rule filterEntries_depends_on_criteria)
  then have "filterEntries js params' = filterEntries js params"
    by (simp only: fun_eq_iff) simp
  then show "handleLitigationAPI js fs params' = handleLitigationAPI js fs params"
    by (rule handleLitigationAPI_same_filter)
next
  have "\<forall>k\<in>set criteriaNames. (params(''year'' := y)) k = params k"
    by (simp add: criteriaNames_def)
  then have "filterEntries js (params(''year'' := y)) entries = filterEntries js params entries"
    for entries
    by (rule filterEntries_depends_on_criteria)
  then have "filterEntries js (params(''year'' := y)) = filterEntries js params"
    by (simp only: fun_eq_iff) simp
  then show "handleLitigationAPI js fs (params(''year'' := y)) = handleLitigationAPI js fs params"
    by (rule handleLitigationAPI_same_filter)
next
  assume "loadDatabase fs = Document db
      \<and> loadDatabase fs' =
          Document (db\<lparr>litigationEntries :=
                        map (\<lambda>e. e\<lparr>filingDate := h e\<rparr>) (litigationEntries db)\<rparr>)"
  then have "loadDatabase fs = Document db"
    by simp
  then show "handleLitigationAPI js fs params =
      Response 200
        (LitigationBody (length (filterEntries js params (litigationEntries db)))
           (filterEntries js params (litigationEntries db)) (metadata db))"
    by (rule handleLitigationAPI_loaded)
next
  assume "loadDatabase fs = Document db
      \<and> loadDatabase fs' =
          Document (db\<lparr>litigationEntries :=
                        map (\<lambda>e. e\<lparr>filingDate := h e\<rparr>) (litigationEntries db)\<rparr>)"
  then have "loadDatabase fs' =
      Document (db\<lparr>litigationEntries :=
                    map (\<lambda>e. e\<lparr>filingDate := h e\<rparr>) (litigationEntries db)\<rparr>)"
    by simp
  from handleLitigationAPI_loaded [OF this, of js params]
  show "handleLitigationAPI js fs' params =
      Response 200
        (LitigationBody (length (filterEntries js params (litigationEntries db)))
           (map (\<lambda>e. e\<lparr>filingDate := h e\<rparr>) (filterEntries js params (litigationEntries db)))
           (metadata db))"
    by (simp add: filterEntries_filingDate)
qed

text \<open>
  C7 as stated fails: with \<open>year=2025\<close> the response holds a record filed in 2024.
\<close>

theorem year_filter_counterexample:
  "handleLitigationAPI sampleRuntime sampleEnv (onlyParam ''year'' ''2025'')
     = Response 200 (LitigationBody 3 [entryA, entryB, entryC] (metadata sampleDb))
   \<and> yearOf (filingDate entryA) = ''2024''"
  by (simp add: handleLitigationAPI_def loadDatabase_sampleEnv filterEntries_def onlyParam_def
      litigationEntries_sampleDb yearOf_def entryA_def)

theorem filter_reads_five_criteria_witness:
  "handleLitigationAPI sampleRuntime sampleEnv
       ((onlyParam ''classification'' ''critical'')(''court'' := Some ''D.D.C.''))
     = handleLitigationAPI sampleRuntime sampleEnv (onlyParam ''classification'' ''critical'')
   \<and> handleLitigationAPI sampleRuntime sampleEnv
       ((onlyParam ''classification'' ''critical'')(''year'' := Some ''2025''))
     = handleLitigationAPI sampleRuntime sampleEnv (onlyParam ''classification'' ''critical'')
   \<and> handleLitigationAPI sampleRuntime redatedEnv (onlyParam ''classification'' ''critical'')
     = Response 200
         (LitigationBody 1 [entryA\<lparr>filingDate := ''1999-01-01''\<rparr>] (metadata sampleDb))"
proof -
  note t = filter_reads_five_criteria [where js = sampleRuntime and fs = sampleEnv
      and params = "onlyParam ''classification'' ''critical''" and y = "Some ''2025''"
      and db = sampleDb and fs' = redatedEnv and h = "\<lambda>e. ''1999-01-01''"]
  have agree: "\<forall>k\<in>set criteriaNames.
      ((onlyParam ''classification'' ''critical'')(''court'' := Some ''D.D.C.'')) k
        = onlyParam ''classification'' ''critical'' k"
    by (simp add: criteriaNames_def)
  have redated: "loadDatabase redatedEnv =
      Document (sampleDb\<lparr>litigationEntries :=
                  map (\<lambda>e. e\<lparr>filingDate := ''1999-01-01''\<rparr>) (litigationEntries sampleDb)\<rparr>)"
    by (simp add: loadDatabase_def redatedEnv_def)
  have up: "toUpperCase sampleRuntime ''critical'' = ''CRITICAL''"
    by code_simp
  have f: "filterEntries sampleRuntime (onlyParam ''classification'' ''critical'')
      (litigationEntries sampleDb) = [entryA]"
    by (simp add: litigationEntries_sampleDb filterEntries_def Let_def onlyParam_def
        matchClassification_def up entryA_def entryB_def entryC_def)
  from t agree have "handleLitigationAPI sampleRuntime sampleEnv
       ((onlyParam ''classification'' ''critical'')(''court'' := Some ''D.D.C.''))
     = handleLitigationAPI sampleRuntime sampleEnv (onlyParam ''classification'' ''critical'')"
    by blast
  moreover from t have "handleLitigationAPI sampleRuntime sampleEnv
       ((onlyParam ''classification'' ''critical'')(''year'' := Some ''2025''))
     = handleLitigationAPI sampleRuntime sampleEnv (onlyParam ''classification'' ''critical'')"
    by blast
  moreover from t loadDatabase_sampleEnv redated
  have "handleLitigationAPI sampleRuntime redatedEnv (onlyParam ''classification'' ''critical'')
     = Response 200
         (LitigationBody
            (length (filterEntries sampleRuntime (onlyParam ''classification'' ''critical'')
                       (litigationEntries sampleDb)))
            (map (\<lambda>e. e\<lparr>filingDate := ''1999-01-01''\<rparr>)
               (filterEntries sampleRuntime (onlyParam ''classification'' ''critical'')
                  (litigationEntries sampleDb)))
            (metadata sampleDb))"
    by blast
  ultimately show ?thesis
    by (simp add: f)
qed

section \<open>Ranking by relevance\<close>

lemma sublist_join: "f \<in> set texts \<Longrightarrow> sublist f (join sep texts)"
proof (induction sep texts rule: join.induct)
  case (1 sep)
  then show ?case by simp
next
  case (2 sep x)
  then show ?case by simp
next
  case (3 sep x y ys)
  show ?case
  proof (cases "f = x")
    case True
    then show ?thesis
      by (simp add: sublist_def) (metis append_Nil)
  next
    case False
    with 3 have "sublist f (join sep (y # ys))"
      by simp
    then show ?thesis
      by (metis append_assoc join.simps(3) sublist_appendI sublist_order.order_trans sublist_append_leftI)
  qed
qed

lemma lowerKeepsFields_sampleRuntime: "lowerKeepsFields sampleRuntime"
proof -
  have "sublist (map toLowerChar f) (map toLowerChar (join '' '' texts))"
    if "f \<in> set texts" for f texts
    using sublist_join [OF that, of "'' ''"] unfolding sublist_def by (metis map_append)
  then show ?thesis
    by (simp add: lowerKeepsFields_def toLowerCase_sampleRuntime)
qed

lemma field_in_searchableText:
  assumes "lowerKeepsFields js" and "f \<in> set (searchFields e)"
    and "includes_str (toLowerCase js f) t"
  shows "includes_str (searchableText js e) t"
proof -
  from assms(1,2) have "sublist (toLowerCase js f) (toLowerCase js (join '' '' (searchFields e)))"
    by (simp add: lowerKeepsFields_def)
  with assms(3) show ?thesis
    unfolding searchableText_def includes_str_sublist
    by (rule sublist_order.order_trans)
qed

lemma searchWithRelevance_Inr:
  assumes "searchWithRelevance js wP wS records query options = Inr results"
  shows "results =
     (case maxResults options of None \<Rightarrow> (\<lambda>xs. xs) | Some n \<Rightarrow> take n)
       (sort_key (\<lambda>e. - int (score js wP wS query e))
          (filter (eligible js wP wS query options) records))"
proof -
  have "filter (\<lambda>e. minScore options \<le> relevanceScore js wP wS (queryTerms js query) e)
          (filter (\<lambda>e. list_all (\<lambda>t. includes_str (searchableText js e) t) (queryTerms js query)) records)
        = filter (eligible js wP wS query options) records"
    by (auto simp: eligible_def score_def intro!: filter_cong)
  with assms show ?thesis
    by (auto simp: searchWithRelevance_def Let_def score_def split: if_splits option.splits)
qed

lemma ranked_sorted:
  "sorted_wrt (\<lambda>a b. sc b \<le> sc a) (sort_key (\<lambda>e. - int (sc e)) xs)"
proof -
  have "sorted (map (\<lambda>e. - int (sc e)) (sort_key (\<lambda>e. - int (sc e)) xs))"
    by (rule sorted_sort_key)
  then show ?thesis
    by (simp add: sorted_map)
qed

lemma ranked_stable:
  "filter (\<lambda>e. sc e = k) (sort_key (\<lambda>e. - int (sc e)) xs) = filter (\<lambda>e. sc e = k) xs"
proof -
  have "(\<lambda>e. sc e = k) = (\<lambda>e. - int (sc e) = - int k)"
    by auto
  then show ?thesis
    by (simp only: sort_key_stable)
qed

lemma searchWithRelevance_ranked:
  assumes "searchWithRelevance js wP wS records query options = Inr results"
  shows "sorted_wrt (\<lambda>a b. score js wP wS query b \<le> score js wP wS query a) results"
    and "prefix (filter (\<lambda>e. score js wP wS query e = k) results)
           (filter (\<lambda>e. score js wP wS query e = k) (filter (eligible js wP wS query options) records))"
proof -
  let ?ranked = "sort_key (\<lambda>e. - int (score js wP wS query e))
      (filter (eligible js wP wS query options) records)"
  note r = searchWithRelevance_Inr [OF assms]
  have s: "sorted_wrt (\<lambda>a b. score js wP wS query b \<le> score js wP wS query a) ?ranked"
    by (rule ranked_sorted)
  from r s show "sorted_wrt (\<lambda>a b. score js wP wS query b \<le> score js wP wS query a) results"
    by (cases "maxResults options") (simp_all add: sorted_wrt_take)
  have "prefix results ?ranked"
    using r by (cases "maxResults options") (simp_all add: take_is_prefix)
  then have "prefix (filter (\<lambda>e. score js wP wS query e = k) results)
      (filter (\<lambda>e. score js wP wS query e = k) ?ranked)"
    by (rule filter_mono_prefix)
  then show "prefix (filter (\<lambda>e. score js wP wS query e = k) results)
      (filter (\<lambda>e. score js wP wS query e = k) (filter (eligible js wP wS query options) records))"
    by (simp only: ranked_stable)
qed

lemma scenario_scores:
  assumes "queryTerms js query = [t]"
    and "includes_str (toLowerCase js (caseName X)) t"
    and "\<not> includes_str (toLowerCase js (caseName Y)) t"
    and "includes_str (toLowerCase js (narrativeAssessment (culturalImpactAnalysis Y))) t"
    and "\<forall>c\<in>set (affectedCommunities (culturalImpactAnalysis Y)). \<not> includes_str (toLowerCase js c) t"
  shows "wP \<le> score js wP wS query X" and "score js wP wS query Y = wS"
proof -
  from assms(1,2) show "wP \<le> score js wP wS query X"
    by (simp add: score_def relevanceScore_def fieldHits_def primaryFields_def)
  from assms(5) have "filter (\<lambda>f. includes_str (toLowerCase js f) t)
      (affectedCommunities (culturalImpactAnalysis Y)) = []"
    by (simp add: filter_empty_conv)
  with assms(1,3,4) show "score js wP wS query Y = wS"
    by (simp add: score_def relevanceScore_def fieldHits_def primaryFields_def
        secondaryFields_def)
qed

lemma scenario_results:
  assumes w: "wS < wP"
    and k: "lowerKeepsFields js"
    and q: "queryTerms js query = [t]"
    and x: "includes_str (toLowerCase js (caseName X)) t"
    and y: "\<not> includes_str (toLowerCase js (caseName Y)) t"
    and n: "includes_str (toLowerCase js (narrativeAssessment (culturalImpactAnalysis Y))) t"
    and c: "\<forall>c\<in>set (affectedCommunities (culturalImpactAnalysis Y)).
              \<not> includes_str (toLowerCase js c) t"
    and m: "minScore options \<le> wS"
    and r: "case maxResults options of None \<Rightarrow> True | Some n \<Rightarrow> 2 \<le> n"
  shows "searchWithRelevance js wP wS [Y, X] query options = Inr [X, Y]"
    and "searchWithRelevance js wP wS [X, Y] query options = Inr [X, Y]"
proof -
  note sc = scenario_scores [OF q x y n c, of wP wS, unfolded score_def q]
  have mx: "includes_str (searchableText js X) t"
    by (rule field_in_searchableText [OF k _ x]) (simp add: searchFields_def)
  have my: "includes_str (searchableText js Y) t"
    by (rule field_in_searchableText [OF k _ n]) (simp add: searchFields_def)
  from w m sc have ex: "minScore options \<le> relevanceScore js wP wS [t] X"
    and ey: "minScore options \<le> relevanceScore js wP wS [t] Y"
    and lt: "relevanceScore js wP wS [t] Y < relevanceScore js wP wS [t] X"
    by simp_all
  from lt have k1: "\<not> relevanceScore js wP wS [t] X \<le> relevanceScore js wP wS [t] Y"
    and k2: "relevanceScore js wP wS [t] Y \<le> relevanceScore js wP wS [t] X"
    by simp_all
  show "searchWithRelevance js wP wS [Y, X] query options = Inr [X, Y]"
    using r by (cases "maxResults options")
      (simp_all add: searchWithRelevance_def Let_def q mx my ex ey k1)
  show "searchWithRelevance js wP wS [X, Y] query options = Inr [X, Y]"
    using r by (cases "maxResults options")
      (simp_all add: searchWithRelevance_def Let_def q mx my ex ey k2)
qed

text \<open>
  C9. With the primary weight above the secondary one, the results of a relevance
  search are in descending order of score and records of equal score keep the order of
  the collection (the results of a given score are an initial part of the eligible
  records of that score, in collection order). For a one-term query whose term occurs
  in the title of \<open>X\<close> and, in \<open>Y\<close>, in the narrative only, \<open>X\<close> scores above
  \<open>Y\<close> and the search over the two records, in either order, returns \<open>X\<close> before
  \<open>Y\<close>, provided both reach \<open>minScore\<close> and \<open>maxResults\<close> allows two results;
  that both records match the query rests on the lower-case form of a field occurring
  in that of the concatenated text.
\<close>

theorem relevance_ranking:
  assumes "wS < wP"
  shows "(\<forall>results. searchWithRelevance js wP wS records query options = Inr results \<longrightarrow>
            sorted_wrt (\<lambda>a b. score js wP wS query b \<le> score js wP wS query a) results
            \<and> (\<forall>k. prefix (filter (\<lambda>e. score js wP wS query e = k) results)
                       (filter (\<lambda>e. score js wP wS query e = k)
                          (filter (eligible js wP wS query options) records))))
         \<and> (queryTerms js query = [t]
              \<and> includes_str (toLowerCase js (caseName X)) t
              \<and> \<not> includes_str (toLowerCase js (caseName Y)) t
              \<and> includes_str (toLowerCase js (narrativeAssessment (culturalImpactAnalysis Y))) t
              \<and> (\<forall>c\<in>set (affectedCommunities (culturalImpactAnalysis Y)).
                    \<not> includes_str (toLowerCase js c) t)
              \<and> minScore options \<le> wS
              \<and> (case maxResults options of None \<Rightarrow> True | Some n \<Rightarrow> 2 \<le> n) \<longrightarrow>
            score js wP wS query Y < score js wP wS query X
            \<and> (lowerKeepsFields js \<longrightarrow>
                 searchWithRelevance js wP wS [Y, X] query options = Inr [X, Y]
                 \<and> searchWithRelevance js wP wS [X, Y] query options = Inr [X, Y]))"
proof (intro conjI allI impI)
  fix results
  assume "searchWithRelevance js wP wS records query options = Inr results"
  then show "sorted_wrt (\<lambda>a b. score js wP wS query b \<le> score js wP wS query a) results"
    by (rule searchWithRelevance_ranked)
next
  fix results k
  assume "searchWithRelevance js wP wS records query options = Inr results"
  then show "prefix (filter (\<lambda>e. score js wP wS query e = k) results)
      (filter (\<lambda>e. score js wP wS query e = k)
         (filter (eligible js wP wS query options) records))"
    by (rule searchWithRelevance_ranked)
next
  assume a: "queryTerms js query = [t]
      \<and> includes_str (toLowerCase js (caseName X)) t
      \<and> \<not> includes_str (toLowerCase js (caseName Y)) t
      \<and> includes_str (toLowerCase js (narrativeAssessment (culturalImpactAnalysis Y))) t
      \<and> (\<forall>c\<in>set (affectedCommunities (culturalImpactAnalysis Y)).
            \<not> includes_str (toLowerCase js c) t)
      \<and> minScore options \<le> wS
      \<and> (case maxResults options of None \<Rightarrow> True | Some n \<Rightarrow> 2 \<le> n)"
  then have q: "queryTerms js query = [t]"
    and x: "includes_str (toLowerCase js (caseName X)) t"
    and y: "\<not> includes_str (toLowerCase js (caseName Y)) t"
    and n: "includes_str (toLowerCase js (narrativeAssessment (culturalImpactAnalysis Y))) t"
    and c: "\<forall>c\<in>set (affectedCommunities (culturalImpactAnalysis Y)).
              \<not> includes_str (toLowerCase js c) t"
    and m: "minScore options \<le> wS"
    and r: "case maxResults options of None \<Rightarrow> True | Some n \<Rightarrow> 2 \<le> n"
    by simp_all
  from scenario_scores [OF q x y n c, of wP wS] assms
  show "score js wP wS query Y < score js wP wS query X"
    by simp
  assume k: "lowerKeepsFields js"
  show "searchWithRelevance js wP wS [Y, X] query options = Inr [X, Y]"
    by (rule scenario_results [OF assms k q x y n c m r])
  show "searchWithRelevance js wP wS [X, Y] query options = Inr [X, Y]"
    by (rule scenario_results [OF assms k q x y n c m r])
qed

theorem relevance_ranking_witness:
  "searchWithRelevance sampleRuntime 30 10 [entryY, entryX] ''Indigenous''
       \<lparr>minScore = 10, maxResults = Some 20\<rparr>
     = Inr [entryX, entryY]"
proof -
  have w: "(10::nat) < 30"
    by simp
  have q: "queryTerms sampleRuntime ''Indigenous'' = [''indigenous'']"
    by code_simp
  have x: "includes_str (toLowerCase sampleRuntime (caseName entryX)) ''indigenous''"
    by code_simp
  have y: "\<not> includes_str (toLowerCase sampleRuntime (caseName entryY)) ''indigenous''"
    by code_simp
  have n: "includes_str
      (toLowerCase sampleRuntime (narrativeAssessment (culturalImpactAnalysis entryY)))
      ''indigenous''"
    by code_simp
  have c: "\<forall>c\<in>set (affectedCommunities (culturalImpactAnalysis entryY)).
      \<not> includes_str (toLowerCase sampleRuntime c) ''indigenous''"
    by code_simp
  have m: "minScore \<lparr>minScore = 10, maxResults = Some 20\<rparr> \<le> 10"
    and r: "case maxResults \<lparr>minScore = 10, maxResults = Some 20\<rparr> of
              None \<Rightarrow> True | Some n \<Rightarrow> 2 \<le> n"
    by simp_all
  from relevance_ranking [OF w, where js = sampleRuntime and records = "[]"
      and query = "''Indigenous''" and options = "\<lparr>minScore = 10, maxResults = Some 20\<rparr>"
      and t = "''indigenous''" and X = entryX and Y = entryY]
    q x y n c m r lowerKeepsFields_sampleRuntime
  show ?thesis
    by blast
qed

section \<open>Case mapping beyond ASCII\<close>

text \<open>
  With a runtime that upper-cases the sharp s to \<open>SS\<close>, as JavaScript does, the agency
  criterion made of a sharp s matches a sub-agency whose name holds a double s; with a
  runtime that lower-cases the accented capital letter, a community criterion in upper
  case matches a label in lower case.
\<close>

lemma agency_sharp_s:
  assumes "upperUnicode js sharpS = ''SS''"
  shows "matchAgencyRef js sharpS commission"
    and "satisfiesAgencyRef js sharpS commission"
proof -
  have "\<not> isAscii sharpS"
    by code_simp
  with assms have s: "toUpperCase js sharpS = ''SS''"
    by (simp add: toUpperCase_def)
  have "isAscii ''Federal Communications Commission''"
    and "map toUpperChar ''Federal Communications Commission''
      = ''FEDERAL COMMUNICATIONS COMMISSION''"
    by code_simp+
  then have c: "toUpperCase js ''Federal Communications Commission''
      = ''FEDERAL COMMUNICATIONS COMMISSION''"
    by (simp only: toUpperCase_ascii)
  have i: "includes_str ''FEDERAL COMMUNICATIONS COMMISSION'' ''SS''"
    by code_simp
  from s c i show "matchAgencyRef js sharpS commission"
    by (simp add: matchAgencyRef_def commission_def)
  then show "satisfiesAgencyRef js sharpS commission"
    by (rule matchAgencyRef_imp_satisfies)
qed

lemma community_accented:
  assumes "lowerUnicode js latineUpper = latineLower"
    and "lowerUnicode js latineLower = latineLower"
    and "affectedCommunities (culturalImpactAnalysis e) = [latineLower]"
  shows "matchCommunity js latineUpper e"
proof -
  have "\<not> isAscii latineUpper" and "\<not> isAscii latineLower"
    by code_simp+
  with assms(1,2) have "toLowerCase js latineUpper = latineLower"
    and "toLowerCase js latineLower = latineLower"
    by (simp_all add: toLowerCase_def)
  moreover have "includes_str latineLower latineLower"
    by (simp add: includes_str_sublist)
  ultimately show ?thesis
    by (simp add: matchCommunity_def assms(3))
qed

end
